theory Spec2Isabelle
  imports Complex_Main "HOL-Library.Sublist" "HOL-Library.Signed_Division"
begin

section \<open>Photon image viewer (src/main.c): data model\<close>

text \<open>
  The embedding follows \<^verbatim>\<open>src/main.c\<close> function by function and keeps its names.

  \<^item> A nullable pointer is an \<open>option\<close> (\<open>None\<close> is \<^verbatim>\<open>NULL\<close>).
  \<^item> A \<^verbatim>\<open>const char *\<close> argument is the list of bytes found at the pointer. The C
    string it denotes ends at the first NUL byte of the list, or at the end of the list
    when the list holds no NUL (the terminator is then the byte just after the list).
    \<open>c_str\<close> reads that string, \<open>strlen\<close> measures it.
  \<^item> A writable \<^verbatim>\<open>char\<close> array is the list of all its bytes; an access outside the
    array is undefined behaviour in C and is the value \<open>None\<close> of the function that
    would perform it.
  \<^item> \<^verbatim>\<open>size_t\<close> values are \<open>nat\<close>; \<^verbatim>\<open>int\<close>, \<^verbatim>\<open>long\<close> and \<^verbatim>\<open>time_t\<close> values are
    \<open>int\<close>. Where the source does arithmetic on \<^verbatim>\<open>int\<close> the range check is written
    out.
\<close>

datatype SecurityResult =
    SECURITY_OK
  | SECURITY_ERROR_INVALID_INPUT
  | SECURITY_ERROR_PATH_TOO_LONG
  | SECURITY_ERROR_FILE_TOO_LARGE
  | SECURITY_ERROR_ACCESS_DENIED
  | SECURITY_ERROR_MEMORY_ALLOCATION

definition MAX_PATH_LENGTH :: nat where
  "MAX_PATH_LENGTH = 4096"

definition MAX_FILE_SIZE :: int where
  "MAX_FILE_SIZE = 100 * 1024 * 1024"

abbreviation NUL :: char where
  "NUL \<equiv> CHR 0x00"

subsection \<open>The C library functions the source calls on strings\<close>

definition c_str :: "char list \<Rightarrow> char list" where
  "c_str bs = takeWhile (\<lambda>c. c \<noteq> NUL) bs"

definition strlen :: "char list \<Rightarrow> nat" where
  "strlen bs = length (c_str bs)"

text \<open>\<^verbatim>\<open>strstr(hay, needle)\<close>: the offset of the first occurrence, scanning from the left.\<close>

fun strstr :: "char list \<Rightarrow> char list \<Rightarrow> nat option" where
  "strstr [] needle = (if needle = [] then Some 0 else None)"
| "strstr (h # t) needle =
     (if prefix needle (h # t) then Some 0 else map_option Suc (strstr t needle))"

text \<open>
  \<^verbatim>\<open>memchr(p, c, n)\<close>: the offset of the first byte equal to \<open>c\<close> among the first
  \<open>n\<close> bytes at \<open>p\<close>. The source calls it with \<open>n = strlen p\<close> only, which never
  reaches the end of the list.
\<close>

fun memchr :: "char list \<Rightarrow> char \<Rightarrow> nat \<Rightarrow> nat option" where
  "memchr bs c 0 = None"
| "memchr [] c (Suc n) = None"
| "memchr (b # bs) c (Suc n) =
     (if b = c then Some 0 else map_option Suc (memchr bs c n))"

text \<open>
  \<^verbatim>\<open>strrchr(s, c)\<close> for a byte \<open>c\<close> other than NUL: the offset of the last occurrence
  of \<open>c\<close> in the string.
\<close>

fun strrchr :: "char list \<Rightarrow> char \<Rightarrow> nat option" where
  "strrchr [] c = None"
| "strrchr (x # xs) c =
     (case strrchr xs c of
        Some i \<Rightarrow> Some (Suc i)
      | None \<Rightarrow> if x = c then Some 0 else None)"

subsection \<open>validate_filepath (lines 59-78)\<close>

definition validate_filepath :: "char list option \<Rightarrow> SecurityResult" where
  "validate_filepath filepath =
     (case filepath of
        None \<Rightarrow> SECURITY_ERROR_INVALID_INPUT
      | Some p \<Rightarrow>
          let len = strlen p in
          if len = 0 \<or> len \<ge> MAX_PATH_LENGTH then SECURITY_ERROR_PATH_TOO_LONG
          else if strstr (c_str p) ''..'' \<noteq> None then SECURITY_ERROR_ACCESS_DENIED
          else if memchr p NUL len \<noteq> None then SECURITY_ERROR_INVALID_INPUT
          else SECURITY_OK)"

subsection \<open>sanitize_filename (lines 80-110)\<close>

text \<open>
  \<^verbatim>\<open>isprint\<close> and \<^verbatim>\<open>isspace\<close> in the "C" locale (the program never calls
  \<^verbatim>\<open>setlocale\<close>), on the value of the byte: the printable characters are 0x20 to 0x7E,
  the white-space characters are the space and 0x09 to 0x0D. A byte above 0x7F is in
  neither class.
\<close>

definition isprint :: "char \<Rightarrow> bool" where
  "isprint c \<longleftrightarrow> 0x20 \<le> (of_char c :: nat) \<and> (of_char c :: nat) \<le> 0x7E"

definition isspace :: "char \<Rightarrow> bool" where
  "isspace c \<longleftrightarrow> (of_char c :: nat) = 0x20 \<or> (0x09 \<le> (of_char c :: nat) \<and> (of_char c :: nat) \<le> 0x0D)"

text \<open>The body of the loop, lines 91-105: the byte stored back at \<^verbatim>\<open>filename[i]\<close>.\<close>

definition sanitize_byte :: "char \<Rightarrow> char" where
  "sanitize_byte c =
     (if c = CHR ''<'' \<or> c = CHR ''>'' \<or> c = CHR '':'' \<or> c = CHR 0x22 \<or>
         c = CHR ''|'' \<or> c = CHR ''?'' \<or> c = CHR ''*''
      then CHR ''_''
      else if \<not> isprint c \<and> \<not> isspace c then CHR ''_''
      else c)"

text \<open>The loop of line 90, from index \<open>i\<close> on.\<close>

function sanitize_loop :: "nat \<Rightarrow> nat \<Rightarrow> nat \<Rightarrow> char list \<Rightarrow> char list" where
  "sanitize_loop i len max_len filename =
     (if i < len \<and> i < max_len - 1
      then sanitize_loop (Suc i) len max_len (filename[i := sanitize_byte (filename ! i)])
      else filename)"
  by pat_completeness auto
termination
  by (relation "measure (\<lambda>(i, len, max_len, filename). len - i)") auto

declare sanitize_loop.simps [simp del]

text \<open>
  \<open>filename\<close> is the whole array. The result is \<open>None\<close> where the C code leaves the
  array: \<^verbatim>\<open>strlen\<close> on an array that holds no NUL, or the store to
  \<^verbatim>\<open>filename[max_len - 1]\<close> of line 108 beyond the array's last byte. Otherwise it is
  the returned code and the array after the call.
\<close>

definition sanitize_filename ::
  "char list option \<Rightarrow> nat \<Rightarrow> (SecurityResult \<times> char list option) option" where
  "sanitize_filename filename max_len =
     (case filename of
        None \<Rightarrow> Some (SECURITY_ERROR_INVALID_INPUT, None)
      | Some buf \<Rightarrow>
          if max_len = 0 then Some (SECURITY_ERROR_INVALID_INPUT, Some buf)
          else if NUL \<notin> set buf then None
          else
            let len = strlen buf in
            if len \<ge> max_len then Some (SECURITY_ERROR_PATH_TOO_LONG, Some buf)
            else if max_len - 1 \<ge> length buf then None
            else Some (SECURITY_OK, Some ((sanitize_loop 0 len max_len buf)[max_len - 1 := NUL])))"

subsection \<open>validate_image_size (lines 112-122)\<close>

definition validate_image_size :: "int \<Rightarrow> SecurityResult" where
  "validate_image_size file_size =
     (if file_size < 0 then SECURITY_ERROR_INVALID_INPUT
      else if file_size > MAX_FILE_SIZE then SECURITY_ERROR_FILE_TOO_LARGE
      else SECURITY_OK)"

subsection \<open>secure_strncpy (lines 124-131)\<close>

text \<open>
  \<^verbatim>\<open>strncpy(dest, src, n)\<close> stores exactly \<open>n\<close> bytes: the string \<open>src\<close> cut at
  \<open>n\<close> bytes, then NUL bytes up to \<open>n\<close>. \<^verbatim>\<open>secure_strncpy\<close> then stores a NUL at
  \<^verbatim>\<open>dest[dest_size - 1]\<close>, so it stores exactly \<open>dest_size\<close> bytes whatever the
  capacity of \<open>dest\<close> is. The result is the array after the call; a \<open>dest_size\<close>
  above the capacity shows as a result longer than \<open>dest\<close>.
\<close>

definition secure_strncpy ::
  "char list option \<Rightarrow> char list option \<Rightarrow> nat \<Rightarrow> char list option" where
  "secure_strncpy dest src dest_size =
     (case (dest, src) of
        (Some d, Some s) \<Rightarrow>
          if dest_size = 0 then dest
          else Some (take (dest_size - 1) (c_str s)
                     @ replicate (dest_size - 1 - strlen s) NUL
                     @ [NUL]
                     @ drop dest_size d)
      | _ \<Rightarrow> dest)"

subsection \<open>secure_memzero and safe_free (lines 133-166)\<close>

text \<open>
  The heap maps the address of each allocated block to its bytes. A store outside the
  block, and a \<^verbatim>\<open>free\<close> of an address that is not allocated, are undefined behaviour:
  \<open>None\<close>.
\<close>

type_synonym addr = nat
type_synonym heap = "addr \<rightharpoonup> char list"

text \<open>The loop of line 136, from index \<open>i\<close> on.\<close>

function memzero_loop :: "nat \<Rightarrow> nat \<Rightarrow> char list \<Rightarrow> char list option" where
  "memzero_loop i sz p =
     (if i < sz
      then (if i < length p then memzero_loop (Suc i) sz (p[i := NUL]) else None)
      else Some p)"
  by pat_completeness auto
termination
  by (relation "measure (\<lambda>(i, sz, p). sz - i)") auto

declare memzero_loop.simps [simp del]

definition secure_memzero :: "heap \<Rightarrow> addr option \<Rightarrow> nat \<Rightarrow> heap option" where
  "secure_memzero m ptr sz =
     (case ptr of
        None \<Rightarrow> Some m
      | Some a \<Rightarrow>
          if sz > 0
          then (case m a of
                  None \<Rightarrow> None
                | Some p \<Rightarrow> map_option (\<lambda>p'. m(a \<mapsto> p')) (memzero_loop 0 sz p))
          else Some m)"

text \<open>
  \<open>ptr\<close> is the \<^verbatim>\<open>void **\<close>: \<open>None\<close> when it is NULL, \<open>Some None\<close> when the
  pointer it points to is NULL. The result is the heap after the call, the pointer
  \<^verbatim>\<open>*ptr\<close> after the call, and the blocks handed to \<^verbatim>\<open>free\<close> with the bytes they
  hold at that moment.
\<close>

definition safe_free ::
  "heap \<Rightarrow> addr option option \<Rightarrow> (heap \<times> addr option option \<times> (addr \<times> char list) list) option" where
  "safe_free m ptr =
     (case ptr of
        Some (Some a) \<Rightarrow>
          (case secure_memzero m (Some a) 0 of
             None \<Rightarrow> None
           | Some m1 \<Rightarrow>
               (case m1 a of
                  None \<Rightarrow> None
                | Some bytes \<Rightarrow> Some (m1(a := None), Some None, [(a, bytes)])))
      | _ \<Rightarrow> Some (m, ptr, []))"

subsection \<open>The state of the viewer and its collaborators\<close>

text \<open>
  \<^verbatim>\<open>float\<close> is IEEE 754 binary32 with round-to-nearest-even, every operation rounded
  to binary32. A finite value is the rational number it denotes; zero carries no sign
  (the program never divides by a variable that can be zero in the modelled code).
\<close>

datatype f32 = Finite rat | PInf | NInf | NaN

type_synonym texture = nat

record App =
  window :: "nat option"
  renderer :: "nat option"
  image_texture :: "texture option"
  window_width :: int
  window_height :: int
  image_width :: int
  image_height :: int
  running :: int
  zoom :: f32
  pan_x :: int
  pan_y :: int
  fit_to_window :: int
  show_info :: int

record ImageMetadata =
  md_filename :: "char list"
  md_filepath :: "char list"
  md_width :: int
  md_height :: int
  md_file_size :: int
  md_bits_per_pixel :: int
  md_format :: "char list"
  md_creation_time :: int
  md_modification_time :: int

text \<open>
  The filesystem, the image decoder and the renderer are outside the program. Each is a
  function of the model's environment: \<open>stat\<close> is \<open>None\<close> when \<^verbatim>\<open>stat()\<close> does not
  return 0, \<open>IMG_Load\<close> and \<open>SDL_CreateTextureFromSurface\<close> are \<open>None\<close> when the
  library returns NULL. The paths they receive are C strings.
\<close>

record file_stat =
  st_size :: int
  st_ctime :: int
  st_mtime :: int

record SDL_Surface =
  surface_w :: int
  surface_h :: int
  surface_BitsPerPixel :: int

record collaborators =
  stat :: "char list \<Rightarrow> file_stat option"
  IMG_Load :: "char list \<Rightarrow> SDL_Surface option"
  SDL_CreateTextureFromSurface :: "SDL_Surface \<Rightarrow> texture option"

text \<open>The calls a function makes to its collaborators, in the order it makes them.\<close>

datatype call =
    Call_stat "char list"
  | Call_IMG_Load "char list"
  | Call_SDL_FreeSurface
  | Call_SDL_DestroyTexture texture
  | Call_SDL_CreateTextureFromSurface

subsection \<open>load_image_secure (lines 228-274)\<close>

definition load_image_secure ::
  "collaborators \<Rightarrow> App option \<Rightarrow> char list option \<Rightarrow> SecurityResult \<times> App option \<times> call list" where
  "load_image_secure e app image_path =
     (case (app, image_path) of
        (Some a, Some p) \<Rightarrow>
          let result = validate_filepath image_path in
          if result \<noteq> SECURITY_OK then (result, app, [])
          else
            (case stat e (c_str p) of
               None \<Rightarrow> (SECURITY_ERROR_ACCESS_DENIED, app, [Call_stat (c_str p)])
             | Some file_stat \<Rightarrow>
                 let result = validate_image_size (st_size file_stat) in
                 if result \<noteq> SECURITY_OK then (result, app, [Call_stat (c_str p)])
                 else
                   (case IMG_Load e (c_str p) of
                      None \<Rightarrow>
                        (SECURITY_ERROR_ACCESS_DENIED, app,
                         [Call_stat (c_str p), Call_IMG_Load (c_str p)])
                    | Some surface \<Rightarrow>
                        if surface_w surface \<le> 0 \<or> surface_h surface \<le> 0 \<or>
                           surface_w surface > 32768 \<or> surface_h surface > 32768
                        then (SECURITY_ERROR_INVALID_INPUT, app,
                              [Call_stat (c_str p), Call_IMG_Load (c_str p), Call_SDL_FreeSurface])
                        else
                          let destroyed =
                                (case image_texture a of
                                   Some t \<Rightarrow> [Call_SDL_DestroyTexture t]
                                 | None \<Rightarrow> []);
                              a1 = a\<lparr>image_texture := None\<rparr>
                          in
                          (case SDL_CreateTextureFromSurface e surface of
                             None \<Rightarrow>
                               (SECURITY_ERROR_MEMORY_ALLOCATION, Some a1,
                                [Call_stat (c_str p), Call_IMG_Load (c_str p)] @ destroyed @
                                [Call_SDL_CreateTextureFromSurface, Call_SDL_FreeSurface])
                           | Some t \<Rightarrow>
                               (SECURITY_OK,
                                Some (a1\<lparr>image_texture := Some t,
                                          image_width := surface_w surface,
                                          image_height := surface_h surface\<rparr>),
                                [Call_stat (c_str p), Call_IMG_Load (c_str p)] @ destroyed @
                                [Call_SDL_CreateTextureFromSurface, Call_SDL_FreeSurface]))))
      | _ \<Rightarrow> (SECURITY_ERROR_INVALID_INPUT, app, []))"

subsection \<open>get_format_name (lines 187-205)\<close>

text \<open>\<^verbatim>\<open>tolower\<close> in the "C" locale, and \<^verbatim>\<open>strcasecmp(a, b) == 0\<close>.\<close>

definition tolower :: "char \<Rightarrow> char" where
  "tolower c =
     (if 0x41 \<le> (of_char c :: nat) \<and> (of_char c :: nat) \<le> 0x5A
      then char_of ((of_char c :: nat) + 32)
      else c)"

definition strcasecmp_eq :: "char list \<Rightarrow> char list \<Rightarrow> bool" where
  "strcasecmp_eq a b \<longleftrightarrow> map tolower a = map tolower b"

definition get_format_name :: "char list option \<Rightarrow> char list" where
  "get_format_name filepath =
     (case filepath of
        None \<Rightarrow> ''Unknown''
      | Some p \<Rightarrow>
          let len = strlen p in
          if len = 0 \<or> len > MAX_PATH_LENGTH then ''Unknown''
          else
            (case strrchr (c_str p) (CHR ''.'') of
               None \<Rightarrow> ''Unknown''
             | Some i \<Rightarrow>
                 let ext = drop (Suc i) (c_str p) in
                 if length ext > 10 then ''Unknown''
                 else if strcasecmp_eq ext ''png'' then ''PNG''
                 else if strcasecmp_eq ext ''jpg'' \<or> strcasecmp_eq ext ''jpeg'' then ''JPEG''
                 else if strcasecmp_eq ext ''bmp'' then ''BMP''
                 else if strcasecmp_eq ext ''gif'' then ''GIF''
                 else ''Unknown''))"

subsection \<open>extract_metadata (lines 305-364)\<close>

text \<open>
  Lines 317-325: the bytes at the pointer \<^verbatim>\<open>filename\<close>, which points into
  \<^verbatim>\<open>filepath\<close>. The second \<^verbatim>\<open>strrchr\<close> runs only when the first one found no
  \<^verbatim>\<open>'/'\<close>.
\<close>

definition filename_of :: "char list \<Rightarrow> char list" where
  "filename_of p =
     (case strrchr (c_str p) (CHR ''/'') of
        Some i \<Rightarrow> drop (Suc i) p
      | None \<Rightarrow>
          (case strrchr (c_str p) (CHR 0x5C) of
             Some i \<Rightarrow> drop (Suc i) p
           | None \<Rightarrow> p))"

text \<open>
  The result is the returned \<^verbatim>\<open>int\<close> and the record \<^verbatim>\<open>*metadata\<close> after the call;
  \<open>None\<close> when \<open>sanitize_filename\<close> leaves the array it is given. The inner
  \<open>case\<close> on \<open>stat\<close> is \<open>None\<close> on the early return of line 339.
\<close>

definition extract_metadata ::
  "collaborators \<Rightarrow> char list option \<Rightarrow> ImageMetadata option \<Rightarrow> (int \<times> ImageMetadata option) option" where
  "extract_metadata e filepath metadata =
     (case (filepath, metadata) of
        (Some p, Some md) \<Rightarrow>
          if validate_filepath filepath \<noteq> SECURITY_OK then Some (0, metadata)
          else
            let md1 = (case secure_strncpy (Some (md_filepath md)) filepath 512 of
                         Some d \<Rightarrow> md\<lparr>md_filepath := d\<rparr>
                       | None \<Rightarrow> md);
                md2 = (case secure_strncpy (Some (md_filename md1)) (Some (filename_of p)) 256 of
                         Some d \<Rightarrow> md1\<lparr>md_filename := d\<rparr>
                       | None \<Rightarrow> md1)
            in
            (case sanitize_filename (Some (md_filename md2)) 256 of
               None \<Rightarrow> None
             | Some (sec_result, buf) \<Rightarrow>
                 let md3 = (case buf of
                              Some d \<Rightarrow> md2\<lparr>md_filename := d\<rparr>
                            | None \<Rightarrow> md2) in
                 if sec_result \<noteq> SECURITY_OK then Some (0, Some md3)
                 else
                   let md4 = (case secure_strncpy (Some (md_format md3))
                                      (Some (get_format_name filepath)) 32 of
                                Some d \<Rightarrow> md3\<lparr>md_format := d\<rparr>
                              | None \<Rightarrow> md3)
                   in
                   (case (case stat e (c_str p) of
                            Some file_stat \<Rightarrow>
                              if validate_image_size (st_size file_stat) \<noteq> SECURITY_OK
                              then None
                              else Some (md4\<lparr>md_file_size := st_size file_stat,
                                             md_creation_time := st_ctime file_stat,
                                             md_modification_time := st_mtime file_stat\<rparr>)
                          | None \<Rightarrow>
                              Some (md4\<lparr>md_file_size := 0,
                                        md_creation_time := 0,
                                        md_modification_time := 0\<rparr>)) of
                      None \<Rightarrow> Some (0, Some md4)
                    | Some md5 \<Rightarrow>
                        (case IMG_Load e (c_str p) of
                           Some surface \<Rightarrow>
                             Some (1, Some (md5\<lparr>md_width := surface_w surface,
                                                 md_height := surface_h surface,
                                                 md_bits_per_pixel := surface_BitsPerPixel surface\<rparr>))
                         | None \<Rightarrow>
                             Some (1, Some (md5\<lparr>md_width := 0,
                                                 md_height := 0,
                                                 md_bits_per_pixel := 0\<rparr>)))))
      | _ \<Rightarrow> Some (0, metadata))"

subsection \<open>Arithmetic on \<^verbatim>\<open>float\<close> and \<^verbatim>\<open>int\<close>\<close>

text \<open>The number of binary digits of a natural number.\<close>

fun bit_length :: "nat \<Rightarrow> nat" where
  "bit_length n = (if n = 0 then 0 else Suc (bit_length (n div 2)))"

declare bit_length.simps [simp del]

definition pow2 :: "int \<Rightarrow> rat" where
  "pow2 e = (if e \<ge> 0 then 2 ^ nat e else 1 / 2 ^ nat (- e))"

definition round_half_even :: "rat \<Rightarrow> int" where
  "round_half_even y =
     (let f = \<lfloor>y\<rfloor>; d = y - of_int f in
      if d < 1 / 2 then f
      else if d > 1 / 2 then f + 1
      else if even f then f else f + 1)"

text \<open>
  The exponent of the spacing of binary32 values around \<open>x\<close>: 24 significant bits, and
  the spacing \<open>2 ^ -149\<close> of the subnormal values below \<open>2 ^ -126\<close>.
\<close>

definition f32_ulp_exponent :: "rat \<Rightarrow> int" where
  "f32_ulp_exponent x = max (- 149) (int (bit_length (nat \<lfloor>\<bar>x\<bar> * 2 ^ 149\<rfloor>)) - 173)"

text \<open>Rounding a rational to binary32: to nearest, ties to even, overflow to infinity.\<close>

definition f32_round :: "rat \<Rightarrow> f32" where
  "f32_round x =
     (let q = pow2 (f32_ulp_exponent x);
          r = of_int (round_half_even (x / q)) * q
      in if r \<ge> 2 ^ 128 then PInf else if r \<le> - (2 ^ 128) then NInf else Finite r)"

definition f32_sign :: "f32 \<Rightarrow> int" where
  "f32_sign v =
     (case v of
        Finite x \<Rightarrow> (if x > 0 then 1 else if x < 0 then - 1 else 0)
      | PInf \<Rightarrow> 1
      | NInf \<Rightarrow> - 1
      | NaN \<Rightarrow> 0)"

definition f32_signed_inf :: "int \<Rightarrow> f32" where
  "f32_signed_inf s = (if s > 0 then PInf else if s < 0 then NInf else NaN)"

definition f32_mul :: "f32 \<Rightarrow> f32 \<Rightarrow> f32" where
  "f32_mul a b =
     (case (a, b) of
        (Finite x, Finite y) \<Rightarrow> f32_round (x * y)
      | _ \<Rightarrow> if a = NaN \<or> b = NaN then NaN else f32_signed_inf (f32_sign a * f32_sign b))"

definition f32_div :: "f32 \<Rightarrow> f32 \<Rightarrow> f32" where
  "f32_div a b =
     (case (a, b) of
        (Finite x, Finite y) \<Rightarrow>
          if y = 0 then f32_signed_inf (f32_sign a) else f32_round (x / y)
      | (Finite x, _) \<Rightarrow> if b = NaN then NaN else Finite 0
      | (_, Finite y) \<Rightarrow>
          if a = NaN then NaN else f32_signed_inf (f32_sign a * (if y < 0 then - 1 else 1))
      | _ \<Rightarrow> NaN)"

text \<open>The conversion of an \<^verbatim>\<open>int\<close> to \<^verbatim>\<open>float\<close>, and the literals of the source.\<close>

definition f32_of_int :: "int \<Rightarrow> f32" where
  "f32_of_int i = f32_round (of_int i)"

definition f32_1_0 :: f32 where
  "f32_1_0 = f32_round 1"

definition f32_1_1 :: f32 where
  "f32_1_1 = f32_round (11 / 10)"

definition f32_1_2 :: f32 where
  "f32_1_2 = f32_round (12 / 10)"

definition INT_MIN :: int where
  "INT_MIN = - 2147483648"

definition INT_MAX :: int where
  "INT_MAX = 2147483647"

text \<open>
  The cast \<^verbatim>\<open>(int)\<close> of a \<^verbatim>\<open>float\<close> discards the fractional part. It is undefined
  behaviour, \<open>None\<close>, when the value is not finite or the integral part is not an
  \<^verbatim>\<open>int\<close>.
\<close>

definition f32_to_int :: "f32 \<Rightarrow> int option" where
  "f32_to_int v =
     (case v of
        Finite x \<Rightarrow>
          let t = (if x \<ge> 0 then \<lfloor>x\<rfloor> else \<lceil>x\<rceil>) in
          if INT_MIN \<le> t \<and> t \<le> INT_MAX then Some t else None
      | _ \<Rightarrow> None)"

text \<open>The result of an \<^verbatim>\<open>int\<close> operation; signed overflow is undefined behaviour.\<close>

definition c_int :: "int \<Rightarrow> int option" where
  "c_int v = (if INT_MIN \<le> v \<and> v \<le> INT_MAX then Some v else None)"

subsection \<open>render_image, free zoom and pan (lines 462-473)\<close>

record SDL_Rect =
  rect_x :: int
  rect_y :: int
  rect_w :: int
  rect_h :: int

text \<open>
  What the branch \<^verbatim>\<open>else\<close> of line 462 leaves: undefined behaviour, the
  \<^verbatim>\<open>return\<close> of line 468 with nothing drawn, or the rectangle \<^verbatim>\<open>dest_rect\<close> that
  lines 475-485 draw.
\<close>

datatype viewport = Undefined | No_rectangle | Rectangle SDL_Rect

text \<open>\<^verbatim>\<open>pan + (window - d) / 2\<close> on \<^verbatim>\<open>int\<close>; the division truncates towards zero.\<close>

definition centred :: "int \<Rightarrow> int \<Rightarrow> int \<Rightarrow> int option" where
  "centred pan win d =
     (case c_int (win - d) of
        None \<Rightarrow> None
      | Some s \<Rightarrow> c_int (pan + s sdiv 2))"

definition render_image_free :: "App \<Rightarrow> viewport" where
  "render_image_free app =
     (case f32_to_int (f32_mul (f32_of_int (image_width app)) (zoom app)) of
        None \<Rightarrow> Undefined
      | Some w \<Rightarrow>
          (case f32_to_int (f32_mul (f32_of_int (image_height app)) (zoom app)) of
             None \<Rightarrow> Undefined
           | Some h \<Rightarrow>
               if w \<le> 0 \<or> h \<le> 0 \<or> w > 65536 \<or> h > 65536 then No_rectangle
               else
                 (case centred (pan_x app) (window_width app) w of
                    None \<Rightarrow> Undefined
                  | Some x \<Rightarrow>
                      (case centred (pan_y app) (window_height app) h of
                         None \<Rightarrow> Undefined
                       | Some y \<Rightarrow>
                           Rectangle \<lparr>rect_x = x, rect_y = y, rect_w = w, rect_h = h\<rparr>))))"

subsection \<open>handle_events (lines 537-596)\<close>

datatype SDL_Keycode =
    SDLK_ESCAPE | SDLK_PLUS | SDLK_EQUALS | SDLK_MINUS | SDLK_f | SDLK_1 | SDLK_i
  | SDLK_LEFT | SDLK_RIGHT | SDLK_unhandled

datatype SDL_Event =
    SDL_QUIT
  | SDL_WINDOWEVENT_RESIZED int int
  | SDL_WINDOWEVENT_unhandled
  | SDL_KEYDOWN SDL_Keycode
  | SDL_MOUSEWHEEL int
  | SDL_unhandled

text \<open>The inner \<^verbatim>\<open>switch\<close> on the key, lines 551-583.\<close>

fun handle_keydown :: "SDL_Keycode \<Rightarrow> App \<Rightarrow> App" where
  "handle_keydown SDLK_ESCAPE app = app\<lparr>running := 0\<rparr>"
| "handle_keydown SDLK_PLUS app = app\<lparr>zoom := f32_mul (zoom app) f32_1_2, fit_to_window := 0\<rparr>"
| "handle_keydown SDLK_EQUALS app = app\<lparr>zoom := f32_mul (zoom app) f32_1_2, fit_to_window := 0\<rparr>"
| "handle_keydown SDLK_MINUS app = app\<lparr>zoom := f32_div (zoom app) f32_1_2, fit_to_window := 0\<rparr>"
| "handle_keydown SDLK_f app = app\<lparr>fit_to_window := 1, zoom := f32_1_0, pan_x := 0, pan_y := 0\<rparr>"
| "handle_keydown SDLK_1 app = app\<lparr>fit_to_window := 0, zoom := f32_1_0, pan_x := 0, pan_y := 0\<rparr>"
| "handle_keydown SDLK_i app = app\<lparr>show_info := (if show_info app = 0 then 1 else 0)\<rparr>"
| "handle_keydown SDLK_LEFT app = app"
| "handle_keydown SDLK_RIGHT app = app"
| "handle_keydown SDLK_unhandled app = app"

text \<open>The outer \<^verbatim>\<open>switch\<close> on the type of the event, lines 540-594.\<close>

fun handle_event :: "SDL_Event \<Rightarrow> App \<Rightarrow> App" where
  "handle_event SDL_QUIT app = app\<lparr>running := 0\<rparr>"
| "handle_event (SDL_WINDOWEVENT_RESIZED data1 data2) app =
     app\<lparr>window_width := data1, window_height := data2\<rparr>"
| "handle_event SDL_WINDOWEVENT_unhandled app = app"
| "handle_event (SDL_KEYDOWN key) app = handle_keydown key app"
| "handle_event (SDL_MOUSEWHEEL y) app =
     (if y > 0 then app\<lparr>zoom := f32_mul (zoom app) f32_1_1, fit_to_window := 0\<rparr>
      else if y < 0 then app\<lparr>zoom := f32_div (zoom app) f32_1_1, fit_to_window := 0\<rparr>
      else app)"
| "handle_event SDL_unhandled app = app"

text \<open>The loop of line 539 over the events that \<^verbatim>\<open>SDL_PollEvent\<close> delivers.\<close>

fun handle_events :: "SDL_Event list \<Rightarrow> App \<Rightarrow> App" where
  "handle_events [] app = app"
| "handle_events (event # pending) app = handle_events pending (handle_event event app)"

subsection \<open>Concrete inputs\<close>

text \<open>
  A viewer that holds the texture 7 of a 5 by 4 image; a filesystem where every file has
  150 MiB; and collaborators where a 10 by 10 image decodes but no texture can be made.
\<close>

definition viewer_with_texture :: App where
  "viewer_with_texture =
     \<lparr>window = Some 1, renderer = Some 2, image_texture = Some 7,
      window_width = 800, window_height = 600, image_width = 5, image_height = 4,
      running = 1, zoom = Finite 1, pan_x = 0, pan_y = 0, fit_to_window = 1, show_info = 0\<rparr>"

definition huge_file :: collaborators where
  "huge_file =
     \<lparr>stat = (\<lambda>path. Some \<lparr>st_size = 150 * 1024 * 1024, st_ctime = 0, st_mtime = 0\<rparr>),
      IMG_Load = (\<lambda>path. None),
      SDL_CreateTextureFromSurface = (\<lambda>surface. None)\<rparr>"

definition no_texture_memory :: collaborators where
  "no_texture_memory =
     \<lparr>stat = (\<lambda>path. Some \<lparr>st_size = 1024, st_ctime = 0, st_mtime = 0\<rparr>),
      IMG_Load = (\<lambda>path. Some \<lparr>surface_w = 10, surface_h = 10, surface_BitsPerPixel = 32\<rparr>),
      SDL_CreateTextureFromSurface = (\<lambda>surface. None)\<rparr>"

text \<open>
  A metadata record as \<^verbatim>\<open>main\<close> initialises it (all bytes zero), and a filesystem
  where no path exists.
\<close>

definition blank_metadata :: ImageMetadata where
  "blank_metadata =
     \<lparr>md_filename = replicate 256 NUL, md_filepath = replicate 512 NUL,
      md_width = 0, md_height = 0, md_file_size = 0, md_bits_per_pixel = 0,
      md_format = replicate 32 NUL, md_creation_time = 0, md_modification_time = 0\<rparr>"

definition no_files :: collaborators where
  "no_files =
     \<lparr>stat = (\<lambda>path. None),
      IMG_Load = (\<lambda>path. None),
      SDL_CreateTextureFromSurface = (\<lambda>surface. None)\<rparr>"

text \<open>
  A viewer that shows a 3 by 3 image in an 800 by 600 window, in the state
  \<^verbatim>\<open>initialize_sdl\<close> leaves, and the same viewer with a 1 by 1 image.
\<close>

definition viewer_3x3 :: App where
  "viewer_3x3 =
     \<lparr>window = Some 1, renderer = Some 2, image_texture = Some 7,
      window_width = 800, window_height = 600, image_width = 3, image_height = 3,
      running = 1, zoom = f32_1_0, pan_x = 0, pan_y = 0, fit_to_window = 1, show_info = 0\<rparr>"

definition viewer_1x1 :: App where
  "viewer_1x1 = viewer_3x3\<lparr>image_width := 1, image_height := 1\<rparr>"

section \<open>Properties of the string functions\<close>

lemma strstr_sublist: "strstr hay needle \<noteq> None \<longleftrightarrow> sublist needle hay"
proof (induction hay)
  case Nil
  show ?case by simp
next
  case (Cons h t)
  show ?case
  proof (cases "prefix needle (h # t)")
    case True
    then show ?thesis by (simp add: sublist_Cons_right)
  next
    case False
    with Cons show ?thesis by (simp add: sublist_Cons_right)
  qed
qed

lemma c_str_no_NUL: "NUL \<notin> set (c_str bs)"
  by (auto simp: c_str_def dest: set_takeWhileD)

lemma memchr_None: "(\<forall>b \<in> set (take n bs). b \<noteq> c) \<Longrightarrow> memchr bs c n = None"
proof (induction bs c n rule: memchr.induct)
  case (1 bs c)
  show ?case by simp
next
  case (2 c n)
  show ?case by simp
next
  case (3 b bs c n)
  then show ?case by simp
qed

lemma memchr_strlen: "memchr p NUL (strlen p) = None"
proof (rule memchr_None)
  have "take (strlen p) p = c_str p"
    unfolding strlen_def c_str_def by (rule takeWhile_eq_take [symmetric])
  then show "\<forall>b \<in> set (take (strlen p) p). b \<noteq> NUL"
    using c_str_no_NUL [of p] by auto
qed

lemma c_str_replicate: "c \<noteq> NUL \<Longrightarrow> c_str (replicate n c) = replicate n c"
  by (simp add: c_str_def)

lemma c_str_plain: "NUL \<notin> set bs \<Longrightarrow> c_str bs = bs"
  unfolding c_str_def takeWhile_eq_all_conv by blast

section \<open>Path validation\<close>

lemma validate_filepath_contains_dotdot:
  assumes dd: "sublist ''..'' (c_str p)"
  shows "validate_filepath (Some p) =
     (if strlen p < MAX_PATH_LENGTH then SECURITY_ERROR_ACCESS_DENIED
      else SECURITY_ERROR_PATH_TOO_LONG)"
proof -
  from dd obtain ps ss where "c_str p = ps @ ''..'' @ ss"
    by (auto simp: sublist_def)
  then have "strlen p \<noteq> 0"
    by (simp add: strlen_def)
  moreover from dd have "strstr (c_str p) ''..'' \<noteq> None"
    by (simp only: strstr_sublist)
  ultimately show ?thesis
    by (simp add: validate_filepath_def Let_def)
qed

text \<open>
  C3, as the code has it. The length test of line 65 comes before the search for
  \<^verbatim>\<open>".."\<close> of line 69: a path that contains \<^verbatim>\<open>".."\<close> is answered with
  \<open>SECURITY_ERROR_ACCESS_DENIED\<close> exactly when its length is below
  \<open>MAX_PATH_LENGTH\<close>, and with \<open>SECURITY_ERROR_PATH_TOO_LONG\<close> otherwise.
\<close>

theorem validate_filepath_dotdot:
  "sublist ''..'' (c_str p) \<Longrightarrow>
   validate_filepath (Some p) =
     (if strlen p < MAX_PATH_LENGTH then SECURITY_ERROR_ACCESS_DENIED
      else SECURITY_ERROR_PATH_TOO_LONG)"
  by (rule validate_filepath_contains_dotdot)

theorem validate_filepath_dotdot_witness:
  "sublist ''..'' (c_str ''../etc/passwd'') \<and>
   validate_filepath (Some ''../etc/passwd'') = SECURITY_ERROR_ACCESS_DENIED"
proof -
  have s: "c_str ''../etc/passwd'' = ''../etc/passwd''"
    by (simp add: c_str_def)
  have "strstr ''../etc/passwd'' ''..'' \<noteq> None"
    by simp
  then have h: "sublist ''..'' (c_str ''../etc/passwd'')"
    by (simp only: s strstr_sublist)
  have "strlen ''../etc/passwd'' < MAX_PATH_LENGTH"
    by (simp add: strlen_def s MAX_PATH_LENGTH_def)
  with h validate_filepath_dotdot [OF h] show ?thesis
    by simp
qed

text \<open>
  C3, as the claim states it, fails: 4096 dots contain \<^verbatim>\<open>".."\<close> and are answered with
  \<open>SECURITY_ERROR_PATH_TOO_LONG\<close>.
\<close>

theorem validate_filepath_dotdot_long_counterexample:
  "sublist ''..'' (c_str (replicate 4096 (CHR ''.''))) \<and>
   validate_filepath (Some (replicate 4096 (CHR ''.''))) \<noteq> SECURITY_ERROR_ACCESS_DENIED"
proof -
  have s: "c_str (replicate 4096 (CHR ''.'')) = replicate 4096 (CHR ''.'')"
    by (rule c_str_replicate) simp
  have "replicate 4096 (CHR ''.'') = [] @ ''..'' @ replicate 4094 (CHR ''.'')"
    by (simp add: replicate_add [symmetric] flip: replicate_Suc)
  then have "sublist ''..'' (replicate 4096 (CHR ''.''))"
    unfolding sublist_def by blast
  moreover have "validate_filepath (Some (replicate 4096 (CHR ''.''))) = SECURITY_ERROR_PATH_TOO_LONG"
    by (simp add: validate_filepath_def strlen_def s MAX_PATH_LENGTH_def)
  ultimately show ?thesis
    by (simp add: s)
qed

text \<open>
  C4, as the code has it. An absent path is answered with
  \<open>SECURITY_ERROR_INVALID_INPUT\<close> (line 61); an empty path is caught by the length
  test of line 65 and answered with \<open>SECURITY_ERROR_PATH_TOO_LONG\<close>.
\<close>

theorem validate_filepath_absent_or_empty:
  "validate_filepath None = SECURITY_ERROR_INVALID_INPUT \<and>
   (c_str p = [] \<longrightarrow> validate_filepath (Some p) = SECURITY_ERROR_PATH_TOO_LONG)"
  by (simp add: validate_filepath_def strlen_def)

theorem validate_filepath_absent_or_empty_witness:
  "c_str [] = [] \<and> validate_filepath None = SECURITY_ERROR_INVALID_INPUT \<and>
   validate_filepath (Some []) = SECURITY_ERROR_PATH_TOO_LONG"
  using validate_filepath_absent_or_empty [of "[]"] by (simp add: c_str_def)

text \<open>
  C4, as the claim states it, fails on the empty path, which is not answered with
  \<open>SECURITY_ERROR_INVALID_INPUT\<close>.
\<close>

theorem validate_filepath_empty_counterexample:
  "validate_filepath (Some []) \<noteq> SECURITY_ERROR_INVALID_INPUT"
  by (simp add: validate_filepath_def strlen_def c_str_def)

section \<open>The filename sanitizer\<close>

lemma sanitize_loop_length [simp]: "length (sanitize_loop i len n f) = length f"
proof (induction i len n f rule: sanitize_loop.induct)
  case (1 i len n f)
  show ?case
  proof (cases "i < len \<and> i < n - 1")
    case True
    with 1 show ?thesis by (subst sanitize_loop.simps) simp
  next
    case False
    then show ?thesis by (subst sanitize_loop.simps) auto
  qed
qed

lemma sanitize_loop_nth:
  "j < length f \<Longrightarrow>
   sanitize_loop i len n f ! j =
     (if i \<le> j \<and> j < len \<and> j < n - 1 then sanitize_byte (f ! j) else f ! j)"
proof (induction i len n f rule: sanitize_loop.induct)
  case (1 i len n f)
  show ?case
  proof (cases "i < len \<and> i < n - 1")
    case True
    have eq: "j = i" if "\<not> Suc i \<le> j" "i \<le> j"
      using that by arith
    from True 1 show ?thesis
      by (subst sanitize_loop.simps) (auto simp: nth_list_update dest: eq)
  next
    case False
    then show ?thesis by (subst sanitize_loop.simps) auto
  qed
qed

lemma sanitize_byte_class:
  "(isprint (sanitize_byte c) \<or> isspace (sanitize_byte c)) \<and>
   sanitize_byte c \<notin> {CHR ''<'', CHR ''>'', CHR '':'', CHR 0x22, CHR ''|'', CHR ''?'', CHR ''*''}"
  by (simp add: sanitize_byte_def isprint_def isspace_def)

lemma sanitize_byte_not_NUL: "sanitize_byte c \<noteq> NUL"
  using sanitize_byte_class [of c] by (auto simp: isprint_def isspace_def)

lemma strlen_less_length: "NUL \<in> set s \<Longrightarrow> strlen s < length s"
proof -
  assume n: "NUL \<in> set s"
  let ?t = "takeWhile (\<lambda>c. c \<noteq> NUL) s"
  have "?t \<noteq> s"
    using n by (auto simp: takeWhile_eq_all_conv)
  moreover have "?t = take (length ?t) s"
    by (rule takeWhile_eq_take)
  ultimately have "length ?t \<noteq> length s"
    by (metis take_all order_refl)
  moreover have "length ?t \<le> length s"
    by (rule length_takeWhile_le)
  ultimately show ?thesis
    by (simp add: strlen_def c_str_def)
qed

lemma nth_strlen: "NUL \<in> set s \<Longrightarrow> s ! strlen s = NUL"
  using nth_length_takeWhile [of "\<lambda>c. c \<noteq> NUL" s] strlen_less_length [of s]
  by (simp add: strlen_def c_str_def)

lemma nth_before_strlen: "j < strlen s \<Longrightarrow> s ! j \<noteq> NUL"
  unfolding strlen_def c_str_def
  using nth_mem [of j "takeWhile (\<lambda>c. c \<noteq> NUL) s"] set_takeWhileD [of "s ! j" "\<lambda>c. c \<noteq> NUL" s]
  by (simp add: takeWhile_nth)

lemma c_str_take: "c_str s = take (strlen s) s"
  unfolding strlen_def c_str_def by (rule takeWhile_eq_take)

lemma sanitize_filename_OK:
  assumes "sanitize_filename (Some s) n = Some (SECURITY_OK, Some r)"
  shows "NUL \<in> set s" "strlen s < n" "n - 1 < length s"
    "r = (sanitize_loop 0 (strlen s) n s)[n - 1 := NUL]"
  using assms by (auto simp: sanitize_filename_def Let_def split: if_splits)

lemma sanitize_filename_c_str:
  assumes "sanitize_filename (Some s) n = Some (SECURITY_OK, Some r)"
  shows "c_str r = map sanitize_byte (c_str s)" and "strlen r = strlen s"
    and "length r = length s" and "r ! strlen s = NUL"
proof -
  note ok = sanitize_filename_OK [OF assms]
  let ?len = "strlen s"
  show len: "length r = length s"
    by (simp add: ok(4))
  have before: "r ! j = sanitize_byte (s ! j)" if "j < ?len" for j
  proof -
    from that ok(2,3) have "j < n - 1" "j < length s" by arith+
    then show ?thesis
      using that by (simp add: ok(4) sanitize_loop_nth)
  qed
  show at: "r ! ?len = NUL"
  proof (cases "?len = n - 1")
    case True
    with ok(3) show ?thesis by (simp add: ok(4))
  next
    case False
    with ok(1,3) show ?thesis
      by (simp add: ok(4) sanitize_loop_nth nth_strlen strlen_less_length)
  qed
  have "takeWhile (\<lambda>c. c \<noteq> NUL) r = take ?len r"
  proof (rule takeWhile_eq_take_P_nth)
    fix i assume "i < ?len" "i < length r"
    then show "r ! i \<noteq> NUL"
      by (simp add: before sanitize_byte_not_NUL)
  next
    assume "?len < length r"
    show "\<not> r ! ?len \<noteq> NUL" by (simp add: at)
  qed
  then have cr: "c_str r = take ?len r"
    by (simp add: c_str_def)
  have "take ?len r = map sanitize_byte (take ?len s)"
  proof (rule nth_equalityI)
    from ok(1) len show "length (take ?len r) = length (map sanitize_byte (take ?len s))"
      by simp
  next
    fix i assume "i < length (take ?len r)"
    then show "take ?len r ! i = map sanitize_byte (take ?len s) ! i"
      using ok(1) len strlen_less_length [of s] by (simp add: before)
  qed
  with cr show "c_str r = map sanitize_byte (c_str s)"
    by (simp add: c_str_take [of s])
  then show "strlen r = strlen s"
    by (simp add: strlen_def)
qed

text \<open>
  C7. When \<open>sanitize_filename\<close> returns \<open>SECURITY_OK\<close>, every byte of the string
  left in the array is printable, white space or the placeholder \<^verbatim>\<open>_\<close>; none is one of
  the reserved characters \<^verbatim>\<open>< > : " | ? *\<close>; and the string is terminated by a NUL
  inside the array, at an index below \<open>n\<close>.
\<close>

theorem sanitize_filename_clean:
  assumes "sanitize_filename (Some s) n = Some (SECURITY_OK, Some r)"
  shows "(\<forall>c \<in> set (c_str r).
            (isprint c \<or> isspace c \<or> c = CHR ''_'') \<and>
            c \<notin> {CHR ''<'', CHR ''>'', CHR '':'', CHR 0x22, CHR ''|'', CHR ''?'', CHR ''*''}) \<and>
         strlen r < n \<and> strlen r < length r \<and> r ! strlen r = NUL"
proof -
  note ok = sanitize_filename_OK [OF assms]
  note cs = sanitize_filename_c_str [OF assms]
  have "\<forall>c \<in> set (c_str r).
            (isprint c \<or> isspace c \<or> c = CHR ''_'') \<and>
            c \<notin> {CHR ''<'', CHR ''>'', CHR '':'', CHR 0x22, CHR ''|'', CHR ''?'', CHR ''*''}"
    unfolding cs(1) using sanitize_byte_class by auto
  moreover have "strlen r < n" "strlen r < length r" "r ! strlen r = NUL"
    using ok(1,2) cs(2,3,4) strlen_less_length [of s] by simp_all
  ultimately show ?thesis by blast
qed

theorem sanitize_filename_clean_witness:
  "sanitize_filename (Some (''a<b'' @ [NUL, CHR ''?''])) 5 =
     Some (SECURITY_OK, Some (''a_b'' @ [NUL, NUL])) \<and>
   list_all
     (\<lambda>c. (isprint c \<or> isspace c \<or> c = CHR ''_'') \<and>
          c \<notin> {CHR ''<'', CHR ''>'', CHR '':'', CHR 0x22, CHR ''|'', CHR ''?'', CHR ''*''})
     (c_str (''a_b'' @ [NUL, NUL])) \<and>
   strlen (''a_b'' @ [NUL, NUL]) < 5 \<and>
   strlen (''a_b'' @ [NUL, NUL]) < length (''a_b'' @ [NUL, NUL]) \<and>
   (''a_b'' @ [NUL, NUL]) ! strlen (''a_b'' @ [NUL, NUL]) = NUL"
proof -
  have e: "sanitize_filename (Some (''a<b'' @ [NUL, CHR ''?''])) 5 =
             Some (SECURITY_OK, Some (''a_b'' @ [NUL, NUL]))"
    by (simp add: sanitize_filename_def strlen_def c_str_def sanitize_loop.simps sanitize_byte_def
        isprint_def isspace_def)
  from sanitize_filename_clean [OF e] e show ?thesis
    unfolding list_all_iff by blast
qed

section \<open>Secure memory\<close>

lemma safe_free_keeps_bytes:
  "m a = Some bs \<Longrightarrow> safe_free m (Some (Some a)) = Some (m(a := None), Some None, [(a, bs)])"
  by (simp add: safe_free_def secure_memzero_def)

text \<open>
  C5. \<open>safe_free\<close> calls \<open>secure_memzero\<close> with the size 0 (line 162), which stores
  nothing: the block reaches \<^verbatim>\<open>free\<close> with the bytes it held, here \<^verbatim>\<open>key\<close>.
\<close>

theorem safe_free_releases_unwiped:
  "safe_free [0 \<mapsto> ''key''] (Some (Some 0)) = Some (Map.empty, Some None, [(0, ''key'')])"
  by (simp add: safe_free_def secure_memzero_def)

section \<open>The image loader\<close>

lemma validate_image_size_large:
  "MAX_FILE_SIZE < n \<Longrightarrow> validate_image_size n = SECURITY_ERROR_FILE_TOO_LARGE"
  by (simp add: validate_image_size_def MAX_FILE_SIZE_def)

lemma dotdot_etc_passwd: "sublist ''..'' (c_str ''../etc/passwd'')"
proof -
  have "c_str ''../etc/passwd'' = [] @ ''..'' @ ''/etc/passwd''"
    by (simp add: c_str_def)
  then show ?thesis
    unfolding sublist_def by blast
qed

lemma validate_filepath_not_memory:
  "validate_filepath path \<noteq> SECURITY_ERROR_MEMORY_ALLOCATION"
  by (simp add: validate_filepath_def Let_def split: option.split)

lemma validate_image_size_not_memory:
  "validate_image_size n \<noteq> SECURITY_ERROR_MEMORY_ALLOCATION"
  by (simp add: validate_image_size_def)

text \<open>
  C8, as the code has it. A path that passes \<open>validate_filepath\<close> and whose
  \<^verbatim>\<open>stat\<close> reports more than \<open>MAX_FILE_SIZE\<close> bytes is answered with
  \<open>SECURITY_ERROR_FILE_TOO_LARGE\<close> after the one call to \<^verbatim>\<open>stat\<close>: the decoder
  is not called. A path that contains \<^verbatim>\<open>".."\<close> and is shorter than
  \<open>MAX_PATH_LENGTH\<close> is answered with \<open>SECURITY_ERROR_ACCESS_DENIED\<close> with no
  call at all. The viewer is unchanged in both cases.
\<close>

theorem load_image_secure_short_circuit:
  "(validate_filepath (Some p) = SECURITY_OK \<and> stat e (c_str p) = Some st \<and>
      MAX_FILE_SIZE < st_size st \<longrightarrow>
    load_image_secure e (Some app) (Some p) =
      (SECURITY_ERROR_FILE_TOO_LARGE, Some app, [Call_stat (c_str p)])) \<and>
   (sublist ''..'' (c_str p) \<and> strlen p < MAX_PATH_LENGTH \<longrightarrow>
    load_image_secure e (Some app) (Some p) = (SECURITY_ERROR_ACCESS_DENIED, Some app, []))"
proof (intro conjI impI)
  assume "validate_filepath (Some p) = SECURITY_OK \<and> stat e (c_str p) = Some st \<and>
      MAX_FILE_SIZE < st_size st"
  then show "load_image_secure e (Some app) (Some p) =
      (SECURITY_ERROR_FILE_TOO_LARGE, Some app, [Call_stat (c_str p)])"
    by (simp add: load_image_secure_def validate_image_size_large)
next
  assume "sublist ''..'' (c_str p) \<and> strlen p < MAX_PATH_LENGTH"
  then have "validate_filepath (Some p) = SECURITY_ERROR_ACCESS_DENIED"
    by (simp add: validate_filepath_contains_dotdot)
  then show "load_image_secure e (Some app) (Some p) = (SECURITY_ERROR_ACCESS_DENIED, Some app, [])"
    by (simp add: load_image_secure_def)
qed

theorem load_image_secure_short_circuit_witness:
  "load_image_secure huge_file (Some viewer_with_texture) (Some ''big.png'') =
     (SECURITY_ERROR_FILE_TOO_LARGE, Some viewer_with_texture, [Call_stat ''big.png'']) \<and>
   load_image_secure huge_file (Some viewer_with_texture) (Some ''../etc/passwd'') =
     (SECURITY_ERROR_ACCESS_DENIED, Some viewer_with_texture, [])"
proof -
  have v: "validate_filepath (Some ''big.png'') = SECURITY_OK"
    by (simp add: validate_filepath_def strlen_def c_str_def MAX_PATH_LENGTH_def)
  have s: "stat huge_file (c_str ''big.png'') =
      Some \<lparr>st_size = 150 * 1024 * 1024, st_ctime = 0, st_mtime = 0\<rparr>"
    by (simp add: huge_file_def)
  have m: "MAX_FILE_SIZE < st_size \<lparr>st_size = 150 * 1024 * 1024, st_ctime = 0, st_mtime = 0\<rparr>"
    by (simp add: MAX_FILE_SIZE_def)
  have l: "strlen ''../etc/passwd'' < MAX_PATH_LENGTH"
    by (simp add: strlen_def c_str_def MAX_PATH_LENGTH_def)
  have c: "c_str ''big.png'' = ''big.png''"
    by (simp add: c_str_def)
  from load_image_secure_short_circuit
         [of "''big.png''" huge_file
             "\<lparr>st_size = 150 * 1024 * 1024, st_ctime = 0, st_mtime = 0\<rparr>" viewer_with_texture]
       load_image_secure_short_circuit
         [of "''../etc/passwd''" huge_file
             "\<lparr>st_size = 150 * 1024 * 1024, st_ctime = 0, st_mtime = 0\<rparr>" viewer_with_texture]
       v s m l dotdot_etc_passwd
  show ?thesis
    by (simp only: c simp_thms)
qed

text \<open>
  C8, as the claim states it, fails twice. The file at \<^verbatim>\<open>../big.png\<close> has 150 MiB
  and the answer is not \<open>SECURITY_ERROR_FILE_TOO_LARGE\<close>, because the path is
  rejected first; and 4096 dots contain \<^verbatim>\<open>".."\<close> and the answer is not
  \<open>SECURITY_ERROR_ACCESS_DENIED\<close>, because the length is tested first.
\<close>

theorem load_image_secure_order_counterexample:
  "stat huge_file (c_str ''../big.png'') =
     Some \<lparr>st_size = 150 * 1024 * 1024, st_ctime = 0, st_mtime = 0\<rparr> \<and>
   MAX_FILE_SIZE < 150 * 1024 * 1024 \<and>
   fst (load_image_secure huge_file (Some viewer_with_texture) (Some ''../big.png'')) \<noteq>
     SECURITY_ERROR_FILE_TOO_LARGE \<and>
   sublist ''..'' (c_str (replicate 4096 (CHR ''.''))) \<and>
   fst (load_image_secure huge_file (Some viewer_with_texture) (Some (replicate 4096 (CHR ''.'')))) \<noteq>
     SECURITY_ERROR_ACCESS_DENIED"
proof -
  have s: "c_str (replicate 4096 (CHR ''.'')) = replicate 4096 (CHR ''.'')"
    by (rule c_str_replicate) simp
  have "replicate 4096 (CHR ''.'') = [] @ ''..'' @ replicate 4094 (CHR ''.'')"
    by (simp add: replicate_add [symmetric] flip: replicate_Suc)
  then have d: "sublist ''..'' (c_str (replicate 4096 (CHR ''.'')))"
    unfolding s sublist_def by blast
  have "validate_filepath (Some (replicate 4096 (CHR ''.''))) = SECURITY_ERROR_PATH_TOO_LONG"
    by (simp add: validate_filepath_def strlen_def s MAX_PATH_LENGTH_def)
  then have l: "fst (load_image_secure huge_file (Some viewer_with_texture)
                   (Some (replicate 4096 (CHR ''.'')))) = SECURITY_ERROR_PATH_TOO_LONG"
    by (simp add: load_image_secure_def)
  have "validate_filepath (Some ''../big.png'') = SECURITY_ERROR_ACCESS_DENIED"
    by (simp add: validate_filepath_def strlen_def c_str_def MAX_PATH_LENGTH_def)
  then have b: "fst (load_image_secure huge_file (Some viewer_with_texture) (Some ''../big.png'')) =
      SECURITY_ERROR_ACCESS_DENIED"
    by (simp add: load_image_secure_def)
  have st: "stat huge_file (c_str ''../big.png'') =
      Some \<lparr>st_size = 150 * 1024 * 1024, st_ctime = 0, st_mtime = 0\<rparr>"
    by (simp add: huge_file_def)
  have m: "MAX_FILE_SIZE < 150 * 1024 * 1024"
    by (simp add: MAX_FILE_SIZE_def)
  from st m d show ?thesis
    by (simp only: l b) simp
qed

text \<open>
  C10. A failed load called \<^verbatim>\<open>SDL_CreateTextureFromSurface\<close> exactly when it returns
  \<open>SECURITY_ERROR_MEMORY_ALLOCATION\<close>. A load that fails earlier leaves the viewer
  as it was. A load that fails at the creation of the texture leaves the viewer with
  \<open>image_texture\<close> NULL and every other field, \<open>image_width\<close> and
  \<open>image_height\<close> among them, as it was; the texture held before was destroyed
  just before the call that failed.
\<close>

theorem load_image_secure_failure_frame:
  assumes run: "load_image_secure e (Some app) path = (r, app', calls)"
    and fail: "r \<noteq> SECURITY_OK"
  shows "(Call_SDL_CreateTextureFromSurface \<in> set calls \<longleftrightarrow> r = SECURITY_ERROR_MEMORY_ALLOCATION) \<and>
         (r \<noteq> SECURITY_ERROR_MEMORY_ALLOCATION \<longrightarrow> app' = Some app) \<and>
         (r = SECURITY_ERROR_MEMORY_ALLOCATION \<longrightarrow>
            app' = Some (app\<lparr>image_texture := None\<rparr>) \<and>
            (\<forall>t. image_texture app = Some t \<longrightarrow>
               (\<exists>before. calls = before @ [Call_SDL_DestroyTexture t,
                   Call_SDL_CreateTextureFromSurface, Call_SDL_FreeSurface])))"
proof (cases path)
  case None
  with run fail show ?thesis
    by (auto simp: load_image_secure_def)
next
  case (Some p)
  show ?thesis
  proof (cases "validate_filepath (Some p) = SECURITY_OK")
    case False
    with run Some validate_filepath_not_memory [of "Some p"] show ?thesis
      by (auto simp: load_image_secure_def)
  next
    case valid: True
    show ?thesis
    proof (cases "stat e (c_str p)")
      case None
      with run Some valid show ?thesis
        by (auto simp: load_image_secure_def)
    next
      case st: (Some file_stat)
      show ?thesis
      proof (cases "validate_image_size (st_size file_stat) = SECURITY_OK")
        case False
        with run Some valid st validate_image_size_not_memory [of "st_size file_stat"]
        show ?thesis
          by (auto simp: load_image_secure_def)
      next
        case size_ok: True
        show ?thesis
        proof (cases "IMG_Load e (c_str p)")
          case None
          with run Some valid st size_ok show ?thesis
            by (auto simp: load_image_secure_def)
        next
          case dec: (Some surface)
          show ?thesis
          proof (cases "surface_w surface \<le> 0 \<or> surface_h surface \<le> 0 \<or>
                        surface_w surface > 32768 \<or> surface_h surface > 32768")
            case True
            with run Some valid st size_ok dec show ?thesis
              by (auto simp: load_image_secure_def)
          next
            case dims: False
            show ?thesis
            proof (cases "SDL_CreateTextureFromSurface e surface")
              case None
              with run Some valid st size_ok dec dims show ?thesis
                by (auto simp: load_image_secure_def Let_def)
            next
              case (Some t)
              with run \<open>path = Some p\<close> valid st size_ok dec dims fail show ?thesis
                by (auto simp: load_image_secure_def Let_def)
            qed
          qed
        qed
      qed
    qed
  qed
qed

theorem load_image_secure_failure_frame_witness:
  "load_image_secure no_texture_memory (Some viewer_with_texture) (Some ''a.png'') =
     (SECURITY_ERROR_MEMORY_ALLOCATION, Some (viewer_with_texture\<lparr>image_texture := None\<rparr>),
      [Call_stat ''a.png'', Call_IMG_Load ''a.png'', Call_SDL_DestroyTexture 7,
       Call_SDL_CreateTextureFromSurface, Call_SDL_FreeSurface]) \<and>
   image_width (viewer_with_texture\<lparr>image_texture := None\<rparr>) = 5 \<and>
   image_height (viewer_with_texture\<lparr>image_texture := None\<rparr>) = 4 \<and>
   load_image_secure no_texture_memory (Some viewer_with_texture) (Some ''../a.png'') =
     (SECURITY_ERROR_ACCESS_DENIED, Some viewer_with_texture, [])"
proof -
  have v: "validate_filepath (Some ''a.png'') = SECURITY_OK"
    by (simp add: validate_filepath_def strlen_def c_str_def MAX_PATH_LENGTH_def)
  have c: "c_str ''a.png'' = ''a.png''"
    by (simp add: c_str_def)
  have t: "image_texture viewer_with_texture = Some 7"
    by (simp add: viewer_with_texture_def)
  have e1: "load_image_secure no_texture_memory (Some viewer_with_texture) (Some ''a.png'') =
     (SECURITY_ERROR_MEMORY_ALLOCATION, Some (viewer_with_texture\<lparr>image_texture := None\<rparr>),
      [Call_stat ''a.png'', Call_IMG_Load ''a.png'', Call_SDL_DestroyTexture 7,
       Call_SDL_CreateTextureFromSurface, Call_SDL_FreeSurface])"
    by (simp add: load_image_secure_def v c t no_texture_memory_def validate_image_size_def
        MAX_FILE_SIZE_def)
  have v2: "validate_filepath (Some ''../a.png'') = SECURITY_ERROR_ACCESS_DENIED"
    by (simp add: validate_filepath_def strlen_def c_str_def MAX_PATH_LENGTH_def)
  have e2: "load_image_secure no_texture_memory (Some viewer_with_texture) (Some ''../a.png'') =
     (SECURITY_ERROR_ACCESS_DENIED, Some viewer_with_texture, [])"
    by (simp add: load_image_secure_def v2)
  have w: "image_width (viewer_with_texture\<lparr>image_texture := None\<rparr>) = 5"
    and h: "image_height (viewer_with_texture\<lparr>image_texture := None\<rparr>) = 4"
    by (simp_all add: viewer_with_texture_def)
  from load_image_secure_failure_frame [OF e1] load_image_secure_failure_frame [OF e2]
  show ?thesis
    by (simp only: e1 e2 w h simp_thms)
qed

section \<open>The metadata extractor\<close>

lemma strrchr_None: "strrchr s c = None \<longleftrightarrow> c \<notin> set s"
  by (induction s) (auto split: option.splits)

lemma strrchr_Some:
  "strrchr s c = Some i \<Longrightarrow> i < length s \<and> s ! i = c \<and> c \<notin> set (drop (Suc i) s)"
proof (induction s arbitrary: i)
  case Nil
  then show ?case by simp
next
  case (Cons x xs)
  show ?case
  proof (cases "strrchr xs c")
    case None
    with Cons.prems have "i = 0" "x = c"
      by (auto split: if_splits)
    moreover from None have "c \<notin> set xs"
      by (simp add: strrchr_None)
    ultimately show ?thesis by simp
  next
    case (Some j)
    with Cons.prems have "i = Suc j" by simp
    with Cons.IH [OF Some] show ?thesis by simp
  qed
qed

lemma strrchr_split:
  assumes "strrchr s c = Some i"
  shows "s = take i s @ c # drop (Suc i) s" and "c \<notin> set (drop (Suc i) s)"
proof -
  from strrchr_Some [OF assms] have "i < length s" "s ! i = c"
    by simp_all
  with id_take_nth_drop [of i s] show "s = take i s @ c # drop (Suc i) s"
    by simp
  from strrchr_Some [OF assms] show "c \<notin> set (drop (Suc i) s)"
    by simp
qed

lemma c_str_drop: "k \<le> strlen p \<Longrightarrow> c_str (drop k p) = drop k (c_str p)"
proof (induction p arbitrary: k)
  case Nil
  then show ?case by (simp add: c_str_def)
next
  case (Cons x xs)
  show ?case
  proof (cases k)
    case 0
    then show ?thesis by simp
  next
    case (Suc j)
    with Cons.prems have nz: "x \<noteq> NUL"
      by (auto simp: strlen_def c_str_def split: if_splits)
    with Cons.prems Suc have "j \<le> strlen xs"
      by (simp add: strlen_def c_str_def)
    from Cons.IH [OF this] nz Suc show ?thesis
      by (simp add: c_str_def)
  qed
qed

text \<open>The string at the pointer \<open>filename\<close> of lines 317-325.\<close>

lemma c_str_filename_of:
  "c_str (filename_of p) =
     (case strrchr (c_str p) (CHR ''/'') of
        Some i \<Rightarrow> drop (Suc i) (c_str p)
      | None \<Rightarrow>
          (case strrchr (c_str p) (CHR 0x5C) of
             Some i \<Rightarrow> drop (Suc i) (c_str p)
           | None \<Rightarrow> c_str p))"
proof -
  have "c_str (drop (Suc i) p) = drop (Suc i) (c_str p)" if "strrchr (c_str p) c = Some i" for c i
  proof (rule c_str_drop)
    from strrchr_Some [OF that] show "Suc i \<le> strlen p"
      by (simp add: strlen_def)
  qed
  then show ?thesis
    by (simp add: filename_of_def split: option.splits)
qed

lemma filename_of_basename:
  "\<exists>b. c_str (filename_of p) = b \<and>
     (if CHR ''/'' \<in> set (c_str p)
      then CHR ''/'' \<notin> set b \<and> (\<exists>d. c_str p = d @ CHR ''/'' # b)
      else if CHR 0x5C \<in> set (c_str p)
      then CHR 0x5C \<notin> set b \<and> (\<exists>d. c_str p = d @ CHR 0x5C # b)
      else b = c_str p)"
proof (cases "strrchr (c_str p) (CHR ''/'')")
  case (Some i)
  then have "CHR ''/'' \<in> set (c_str p)"
    using strrchr_None [of "c_str p" "CHR ''/''"] by auto
  moreover from Some have "c_str (filename_of p) = drop (Suc i) (c_str p)"
    by (simp add: c_str_filename_of)
  ultimately show ?thesis
    using strrchr_split [OF Some] by auto
next
  case None
  then have no_slash: "CHR ''/'' \<notin> set (c_str p)"
    by (simp add: strrchr_None)
  show ?thesis
  proof (cases "strrchr (c_str p) (CHR 0x5C)")
    case (Some i)
    then have "CHR 0x5C \<in> set (c_str p)"
      using strrchr_None [of "c_str p" "CHR 0x5C"] by auto
    moreover from Some None have "c_str (filename_of p) = drop (Suc i) (c_str p)"
      by (simp add: c_str_filename_of)
    ultimately show ?thesis
      using strrchr_split [OF Some] no_slash by auto
  next
    case n2: None
    then have "CHR 0x5C \<notin> set (c_str p)"
      by (simp add: strrchr_None)
    moreover from n2 None have "c_str (filename_of p) = c_str p"
      by (simp add: c_str_filename_of)
    ultimately show ?thesis
      using no_slash by simp
  qed
qed

lemma strncpy_buffer:
  fixes s d :: "char list"
  defines "buf \<equiv> take 255 (c_str s) @ replicate (255 - strlen s) NUL @ [NUL] @ drop 256 d"
  shows "NUL \<in> set buf" and "c_str buf = take 255 (c_str s)" and "255 < length buf"
proof -
  show "NUL \<in> set buf"
    by (simp add: buf_def)
  have "x \<noteq> NUL" if "x \<in> set (take 255 (c_str s))" for x
    using that c_str_no_NUL [of s] by (auto dest: in_set_takeD)
  then have "takeWhile (\<lambda>c. c \<noteq> NUL) buf =
      take 255 (c_str s) @
      takeWhile (\<lambda>c. c \<noteq> NUL) (replicate (255 - strlen s) NUL @ [NUL] @ drop 256 d)"
    unfolding buf_def by (rule takeWhile_append2)
  also have "takeWhile (\<lambda>c. c \<noteq> NUL) (replicate (255 - strlen s) NUL @ [NUL] @ drop 256 d) = []"
    by (cases "255 - strlen s") simp_all
  finally show "c_str buf = take 255 (c_str s)"
    by (simp add: c_str_def)
  show "255 < length buf"
    by (simp add: buf_def strlen_def)
qed

lemma sanitize_strncpy_buffer:
  fixes s d :: "char list"
  defines "buf \<equiv> take 255 (c_str s) @ replicate (255 - strlen s) NUL @ [NUL] @ drop 256 d"
  shows "\<exists>r. sanitize_filename (Some buf) 256 = Some (SECURITY_OK, Some r) \<and>
             c_str r = map sanitize_byte (take 255 (c_str s))"
proof -
  note b = strncpy_buffer [of s d, folded buf_def]
  from b(2) have "strlen buf < 256"
    by (simp add: strlen_def)
  with b(1,3) have ok: "sanitize_filename (Some buf) 256 =
      Some (SECURITY_OK, Some ((sanitize_loop 0 (strlen buf) 256 buf)[255 := NUL]))"
    by (simp add: sanitize_filename_def)
  from sanitize_filename_c_str(1) [OF ok] b(2) ok show ?thesis
    by simp
qed

text \<open>What \<open>extract_metadata\<close> returns for a path that passes \<open>validate_filepath\<close>.\<close>

lemma extract_metadata_valid:
  assumes valid: "validate_filepath (Some p) = SECURITY_OK"
  shows "\<exists>md4. c_str (md_filename md4) = map sanitize_byte (take 255 (c_str (filename_of p))) \<and>
     extract_metadata e (Some p) (Some md) =
       (case stat e (c_str p) of
          Some file_stat \<Rightarrow>
            if validate_image_size (st_size file_stat) \<noteq> SECURITY_OK then Some (0, Some md4)
            else Some (1, Some
              ((case IMG_Load e (c_str p) of
                  Some surface \<Rightarrow> (\<lambda>m. m\<lparr>md_width := surface_w surface,
                      md_height := surface_h surface,
                      md_bits_per_pixel := surface_BitsPerPixel surface\<rparr>)
                | None \<Rightarrow> (\<lambda>m. m\<lparr>md_width := 0, md_height := 0, md_bits_per_pixel := 0\<rparr>))
               (md4\<lparr>md_file_size := st_size file_stat,
                    md_creation_time := st_ctime file_stat,
                    md_modification_time := st_mtime file_stat\<rparr>)))
        | None \<Rightarrow>
            Some (1, Some
              ((case IMG_Load e (c_str p) of
                  Some surface \<Rightarrow> (\<lambda>m. m\<lparr>md_width := surface_w surface,
                      md_height := surface_h surface,
                      md_bits_per_pixel := surface_BitsPerPixel surface\<rparr>)
                | None \<Rightarrow> (\<lambda>m. m\<lparr>md_width := 0, md_height := 0, md_bits_per_pixel := 0\<rparr>))
               (md4\<lparr>md_file_size := 0, md_creation_time := 0, md_modification_time := 0\<rparr>))))"
proof -
  define fp where "fp = take 511 (c_str p) @ replicate (511 - strlen p) NUL @ [NUL] @ drop 512 (md_filepath md)"
  define buf where "buf = take 255 (c_str (filename_of p)) @
      replicate (255 - strlen (filename_of p)) NUL @ [NUL] @ drop 256 (md_filename md)"
  define fmt where "fmt = take 31 (c_str (get_format_name (Some p))) @
      replicate (31 - strlen (get_format_name (Some p))) NUL @ [NUL] @ drop 32 (md_format md)"
  have c1: "secure_strncpy (Some (md_filepath md)) (Some p) 512 = Some fp"
    by (simp add: secure_strncpy_def fp_def)
  have c2: "secure_strncpy (Some (md_filename md)) (Some (filename_of p)) 256 = Some buf"
    by (simp add: secure_strncpy_def buf_def)
  have c3: "secure_strncpy (Some (md_format md)) (Some (get_format_name (Some p))) 32 = Some fmt"
    by (simp add: secure_strncpy_def fmt_def)
  from sanitize_strncpy_buffer [of "filename_of p" "md_filename md", folded buf_def]
  obtain r where r: "sanitize_filename (Some buf) 256 = Some (SECURITY_OK, Some r)"
    and cr: "c_str r = map sanitize_byte (take 255 (c_str (filename_of p)))"
    by blast
  show ?thesis
    by (rule exI [of _ "md\<lparr>md_filepath := fp, md_filename := r, md_format := fmt\<rparr>"])
      (simp add: extract_metadata_def valid c1 c2 c3 r cr Let_def split: option.split)
qed

lemma extract_metadata_stat_failed:
  assumes "validate_filepath (Some p) = SECURITY_OK" and "stat e (c_str p) = None"
  shows "\<exists>md'. extract_metadata e (Some p) (Some md) = Some (1, Some md') \<and>
     md_file_size md' = 0 \<and> md_creation_time md' = 0 \<and> md_modification_time md' = 0 \<and>
     c_str (md_filename md') = map sanitize_byte (take 255 (c_str (filename_of p)))"
  using extract_metadata_valid [OF assms(1), of e md] assms(2)
  by (cases "IMG_Load e (c_str p)") auto

lemma extract_metadata_size_accepted:
  assumes "validate_filepath (Some p) = SECURITY_OK" and "stat e (c_str p) = Some st"
    and "validate_image_size (st_size st) = SECURITY_OK"
  shows "\<exists>md'. extract_metadata e (Some p) (Some md) = Some (1, Some md') \<and>
     md_file_size md' = st_size st \<and> md_creation_time md' = st_ctime st \<and>
     md_modification_time md' = st_mtime st \<and>
     c_str (md_filename md') = map sanitize_byte (take 255 (c_str (filename_of p)))"
  using extract_metadata_valid [OF assms(1), of e md] assms(2,3)
  by (cases "IMG_Load e (c_str p)") auto

lemma extract_metadata_size_rejected:
  assumes "validate_filepath (Some p) = SECURITY_OK" and "stat e (c_str p) = Some st"
    and "validate_image_size (st_size st) \<noteq> SECURITY_OK"
  shows "\<exists>md'. extract_metadata e (Some p) (Some md) = Some (0, Some md')"
  using extract_metadata_valid [OF assms(1), of e md] assms(2,3)
  by auto

lemma extract_metadata_invalid:
  "validate_filepath (Some p) \<noteq> SECURITY_OK \<Longrightarrow>
   extract_metadata e (Some p) (Some md) = Some (0, Some md)"
  by (simp add: extract_metadata_def)

lemma valid_photo: "validate_filepath (Some ''photo.png'') = SECURITY_OK"
  by (simp add: validate_filepath_def strlen_def c_str_def MAX_PATH_LENGTH_def)

lemma sanitize_byte_plain:
  "sanitize_byte (CHR ''p'') = CHR ''p''" "sanitize_byte (CHR ''h'') = CHR ''h''"
  "sanitize_byte (CHR ''o'') = CHR ''o''" "sanitize_byte (CHR ''t'') = CHR ''t''"
  "sanitize_byte (CHR ''.'') = CHR ''.''" "sanitize_byte (CHR ''n'') = CHR ''n''"
  "sanitize_byte (CHR ''g'') = CHR ''g''" "sanitize_byte (CHR ''b'') = CHR ''b''"
  "sanitize_byte (CHR ''c'') = CHR ''c''" "sanitize_byte (CHR 0x5C) = CHR 0x5C"
  by (simp_all add: sanitize_byte_def isprint_def isspace_def)

text \<open>
  C2, as the code has it. Given a path and a record, \<open>extract_metadata\<close> returns 0
  exactly when \<open>validate_filepath\<close> rejects the path, or \<^verbatim>\<open>stat\<close> succeeds and
  \<open>validate_image_size\<close> rejects the size it reports (line 339); otherwise it returns
  1. For a path that passes \<open>validate_filepath\<close>, a failed \<^verbatim>\<open>stat\<close> gives 1 with
  \<open>file_size\<close>, \<open>creation_time\<close> and \<open>modification_time\<close> set to 0. The
  sanitizer never rejects the name: it receives at most 255 bytes
  (\<open>sanitize_strncpy_buffer\<close>).
\<close>

theorem extract_metadata_failure:
  "\<exists>ret md'. extract_metadata e (Some p) (Some md) = Some (ret, Some md') \<and>
     (ret = 0 \<or> ret = 1) \<and>
     (ret = 0 \<longleftrightarrow>
        validate_filepath (Some p) \<noteq> SECURITY_OK \<or>
        (\<exists>st. stat e (c_str p) = Some st \<and> validate_image_size (st_size st) \<noteq> SECURITY_OK)) \<and>
     (validate_filepath (Some p) = SECURITY_OK \<and> stat e (c_str p) = None \<longrightarrow>
        ret = 1 \<and> md_file_size md' = 0 \<and> md_creation_time md' = 0 \<and>
        md_modification_time md' = 0)"
proof (cases "validate_filepath (Some p) = SECURITY_OK")
  case False
  then show ?thesis
    by (simp add: extract_metadata_invalid)
next
  case valid: True
  show ?thesis
  proof (cases "stat e (c_str p)")
    case None
    with extract_metadata_stat_failed [OF valid None, of md] valid show ?thesis
      by auto
  next
    case (Some st)
    show ?thesis
    proof (cases "validate_image_size (st_size st) = SECURITY_OK")
      case True
      with extract_metadata_size_accepted [OF valid Some True, of md] valid Some show ?thesis
        by auto
    next
      case False
      with extract_metadata_size_rejected [OF valid Some False, of md] valid Some show ?thesis
        by auto
    qed
  qed
qed

theorem extract_metadata_failure_witness:
  "validate_filepath (Some ''photo.png'') = SECURITY_OK \<and>
   stat no_files (c_str ''photo.png'') = None \<and>
   (\<exists>md'. extract_metadata no_files (Some ''photo.png'') (Some blank_metadata) = Some (1, Some md') \<and>
      md_file_size md' = 0 \<and> md_creation_time md' = 0 \<and> md_modification_time md' = 0)"
proof -
  have st: "stat no_files (c_str ''photo.png'') = None"
    by (simp add: no_files_def)
  from extract_metadata_failure [of no_files "''photo.png''" blank_metadata] valid_photo st
  show ?thesis
    by auto
qed

text \<open>
  C2, as the claim states it, fails: with a file of 150 MiB at \<^verbatim>\<open>big.png\<close>, the path
  passes \<open>validate_filepath\<close>, the sanitizer accepts the name, and
  \<open>extract_metadata\<close> returns 0.
\<close>

theorem extract_metadata_size_counterexample:
  "validate_filepath (Some ''big.png'') = SECURITY_OK \<and>
   map_option fst
     (sanitize_filename
        (secure_strncpy (Some (md_filename blank_metadata)) (Some (filename_of ''big.png'')) 256)
        256) = Some SECURITY_OK \<and>
   map_option fst (extract_metadata huge_file (Some ''big.png'') (Some blank_metadata)) = Some 0"
proof -
  have v: "validate_filepath (Some ''big.png'') = SECURITY_OK"
    by (simp add: validate_filepath_def strlen_def c_str_def MAX_PATH_LENGTH_def)
  have "secure_strncpy (Some (md_filename blank_metadata)) (Some (filename_of ''big.png'')) 256 =
      Some (take 255 (c_str (filename_of ''big.png'')) @
            replicate (255 - strlen (filename_of ''big.png'')) NUL @ [NUL] @
            drop 256 (md_filename blank_metadata))"
    by (simp add: secure_strncpy_def)
  with sanitize_strncpy_buffer [of "filename_of ''big.png''" "md_filename blank_metadata"]
  have s: "map_option fst
     (sanitize_filename
        (secure_strncpy (Some (md_filename blank_metadata)) (Some (filename_of ''big.png'')) 256)
        256) = Some SECURITY_OK"
    by auto
  have st: "stat huge_file (c_str ''big.png'') =
      Some \<lparr>st_size = 150 * 1024 * 1024, st_ctime = 0, st_mtime = 0\<rparr>"
    by (simp add: huge_file_def)
  have "validate_image_size (st_size \<lparr>st_size = 150 * 1024 * 1024, st_ctime = 0, st_mtime = 0\<rparr>)
      \<noteq> SECURITY_OK"
    by (simp add: validate_image_size_def MAX_FILE_SIZE_def)
  from extract_metadata_size_rejected [OF v st this, of blank_metadata]
  have "map_option fst (extract_metadata huge_file (Some ''big.png'') (Some blank_metadata)) = Some 0"
    by auto
  with v s show ?thesis
    by simp
qed

text \<open>
  C6, as the code has it. When \<open>extract_metadata\<close> returns 1, the name it recorded
  is the basename cut at 255 bytes and sanitized, where the basename is the part of the
  path after its last \<^verbatim>\<open>/\<close> when the path has a \<^verbatim>\<open>/\<close>; otherwise the part after
  its last backslash when it has a backslash; otherwise the whole path.
\<close>

theorem extract_metadata_basename:
  assumes run: "extract_metadata e (Some p) (Some md) = Some (1, Some md')"
  shows "\<exists>b. c_str (md_filename md') = map sanitize_byte (take 255 b) \<and>
     (if CHR ''/'' \<in> set (c_str p)
      then CHR ''/'' \<notin> set b \<and> (\<exists>d. c_str p = d @ CHR ''/'' # b)
      else if CHR 0x5C \<in> set (c_str p)
      then CHR 0x5C \<notin> set b \<and> (\<exists>d. c_str p = d @ CHR 0x5C # b)
      else b = c_str p)"
proof -
  have valid: "validate_filepath (Some p) = SECURITY_OK"
    using run extract_metadata_invalid [of p e md] by auto
  have "c_str (md_filename md') = map sanitize_byte (take 255 (c_str (filename_of p)))"
  proof (cases "stat e (c_str p)")
    case None
    with extract_metadata_stat_failed [OF valid None, of md] run show ?thesis
      by auto
  next
    case (Some st)
    show ?thesis
    proof (cases "validate_image_size (st_size st) = SECURITY_OK")
      case True
      with extract_metadata_size_accepted [OF valid Some True, of md] run show ?thesis
        by auto
    next
      case False
      with extract_metadata_size_rejected [OF valid Some False, of md] run show ?thesis
        by auto
    qed
  qed
  with filename_of_basename [of p] show ?thesis
    by auto
qed

theorem extract_metadata_basename_witness:
  "\<exists>md'. extract_metadata no_files (Some ''dir/photo.png'') (Some blank_metadata) = Some (1, Some md') \<and>
      c_str (md_filename md') = ''photo.png'' \<and>
      (\<exists>b. c_str (md_filename md') = map sanitize_byte (take 255 b) \<and>
           CHR ''/'' \<notin> set b \<and> (\<exists>d. ''dir/photo.png'' = d @ CHR ''/'' # b))"
proof -
  have v: "validate_filepath (Some ''dir/photo.png'') = SECURITY_OK"
    by (simp add: validate_filepath_def strlen_def c_str_def MAX_PATH_LENGTH_def)
  have st: "stat no_files (c_str ''dir/photo.png'') = None"
    by (simp add: no_files_def)
  have c: "c_str ''dir/photo.png'' = ''dir/photo.png''"
    by (simp add: c_str_def)
  have f: "c_str (filename_of ''dir/photo.png'') = ''photo.png''"
    by (simp add: c_str_filename_of c)
  from extract_metadata_stat_failed [OF v st, of blank_metadata] obtain md' where
    e: "extract_metadata no_files (Some ''dir/photo.png'') (Some blank_metadata) = Some (1, Some md')"
    and n: "c_str (md_filename md') = ''photo.png''"
    by (auto simp: f sanitize_byte_plain)
  from extract_metadata_basename [OF e] have
    "\<exists>b. c_str (md_filename md') = map sanitize_byte (take 255 b) \<and>
           CHR ''/'' \<notin> set b \<and> (\<exists>d. ''dir/photo.png'' = d @ CHR ''/'' # b)"
    by (simp add: c)
  with e n show ?thesis
    by blast
qed

text \<open>
  C6, as the claim states it, fails: in the path \<^verbatim>\<open>a/b\c\<close> the separator that occurs
  last is the backslash, at offset 3, and the recorded name is \<^verbatim>\<open>b\c\<close>, the part after
  the \<^verbatim>\<open>/\<close>, not \<^verbatim>\<open>c\<close>.
\<close>

theorem extract_metadata_basename_counterexample:
  "strrchr ([CHR ''a'', CHR ''/'', CHR ''b'', CHR 0x5C, CHR ''c'']) (CHR ''/'') = Some 1 \<and>
   strrchr ([CHR ''a'', CHR ''/'', CHR ''b'', CHR 0x5C, CHR ''c'']) (CHR 0x5C) = Some 3 \<and>
   map_option (map_option (c_str \<circ> md_filename) \<circ> snd)
     (extract_metadata no_files (Some ([CHR ''a'', CHR ''/'', CHR ''b'', CHR 0x5C, CHR ''c''])) (Some blank_metadata)) =
   Some (Some ([CHR ''b'', CHR 0x5C, CHR ''c'']))"
proof -
  let ?p = "[CHR ''a'', CHR ''/'', CHR ''b'', CHR 0x5C, CHR ''c'']"
  have c: "c_str ?p = ?p"
    by (simp add: c_str_def)
  have v: "validate_filepath (Some ?p) = SECURITY_OK"
    by (simp add: validate_filepath_def strlen_def c_str_def MAX_PATH_LENGTH_def)
  have st: "stat no_files (c_str ?p) = None"
    by (simp add: no_files_def)
  have f: "c_str (filename_of ?p) = [CHR ''b'', CHR 0x5C, CHR ''c'']"
    unfolding c_str_filename_of c by simp
  from extract_metadata_stat_failed [OF v st, of blank_metadata] obtain md' where
    e: "extract_metadata no_files (Some ?p) (Some blank_metadata) = Some (1, Some md')"
    and n: "c_str (md_filename md') = [CHR ''b'', CHR 0x5C, CHR ''c'']"
    by (auto simp: f sanitize_byte_plain)
  have "strrchr ?p (CHR ''/'') = Some 1" "strrchr ?p (CHR 0x5C) = Some 3"
    by simp_all
  with e n show ?thesis
    by simp
qed

section \<open>Binary32 arithmetic\<close>

lemma bit_length_le_iff: "bit_length n \<le> k \<longleftrightarrow> n < 2 ^ k"
proof (induction n arbitrary: k rule: bit_length.induct)
  case (1 n)
  show ?case
  proof (cases "n = 0")
    case True
    then show ?thesis by (simp add: bit_length.simps)
  next
    case False
    show ?thesis
    proof (cases k)
      case 0
      with False show ?thesis by (simp add: bit_length.simps)
    next
      case (Suc j)
      have "bit_length n \<le> Suc j \<longleftrightarrow> bit_length (n div 2) \<le> j"
        using False by (subst bit_length.simps) simp
      also have "\<dots> \<longleftrightarrow> n div 2 < 2 ^ j"
        using False by (rule "1.IH")
      also have "\<dots> \<longleftrightarrow> n < 2 ^ Suc j"
        by auto
      finally show ?thesis
        using Suc by simp
    qed
  qed
qed

lemma bit_length_eq: "2 ^ k \<le> n \<Longrightarrow> n < 2 ^ Suc k \<Longrightarrow> bit_length n = Suc k"
  using bit_length_le_iff [of n k] bit_length_le_iff [of n "Suc k"] by simp

lemma f32_ulp_exponent_eq:
  assumes lo: "2 ^ k \<le> \<bar>x\<bar> * 2 ^ 149" and hi: "\<bar>x\<bar> * 2 ^ 149 < 2 ^ Suc k"
  shows "f32_ulp_exponent x = max (- 149) (int k - 172)"
proof -
  let ?y = "\<bar>x\<bar> * 2 ^ 149"
  have "(2 ^ k :: int) \<le> \<lfloor>?y\<rfloor>"
    using lo by (simp add: le_floor_iff)
  then have l: "2 ^ k \<le> nat \<lfloor>?y\<rfloor>"
    by (simp add: le_nat_iff)
  have "\<lfloor>?y\<rfloor> < (2 ^ Suc k :: int)"
    using hi by (simp add: floor_less_iff)
  then have h: "nat \<lfloor>?y\<rfloor> < 2 ^ Suc k"
    by (simp add: nat_less_iff)
  from bit_length_eq [OF l h] show ?thesis
    by (simp add: f32_ulp_exponent_def)
qed

lemma round_half_even_near:
  assumes "\<bar>y - of_int m\<bar> < 1 / 2"
  shows "round_half_even y = m"
proof (cases "of_int m \<le> y")
  case True
  with assms have "\<lfloor>y\<rfloor> = m"
    by (simp add: floor_eq_iff)
  with assms True show ?thesis
    by (simp add: round_half_even_def Let_def)
next
  case False
  with assms have f: "\<lfloor>y\<rfloor> = m - 1"
    by (simp add: floor_eq_iff)
  from assms False have "\<not> y - of_int (m - 1) < 1 / 2" "y - of_int (m - 1) > 1 / 2"
    by simp_all
  with f show ?thesis
    by (simp add: round_half_even_def Let_def)
qed

lemma f32_round_eq:
  assumes "2 ^ k \<le> \<bar>x\<bar> * 2 ^ 149" and "\<bar>x\<bar> * 2 ^ 149 < 2 ^ Suc k"
    and "q = pow2 (max (- 149) (int k - 172))"
    and "\<bar>x / q - of_int m\<bar> < 1 / 2"
    and "\<bar>of_int m * q\<bar> < 2 ^ 128"
  shows "f32_round x = Finite (of_int m * q)"
proof -
  have "f32_ulp_exponent x = max (- 149) (int k - 172)"
    using assms(1,2) by (rule f32_ulp_exponent_eq)
  moreover have "round_half_even (x / q) = m"
    using assms(4) by (rule round_half_even_near)
  moreover from assms(5) have "\<not> 2 ^ 128 \<le> of_int m * q" "\<not> of_int m * q \<le> - (2 ^ 128)"
    by linarith+
  ultimately show ?thesis
    by (simp add: f32_round_def Let_def assms(3) del: power_Suc)
qed

lemma f32_round_1: "f32_round 1 = Finite 1"
  using f32_round_eq [where x = 1 and k = 149 and m = 8388608 and q = "1 / 8388608"]
  by (simp add: pow2_def)

lemma f32_round_3: "f32_round 3 = Finite 3"
  using f32_round_eq [where x = 3 and k = 150 and m = 12582912 and q = "1 / 4194304"]
  by (simp add: pow2_def)

lemma f32_1_2_eq: "f32_1_2 = Finite (5033165 / 4194304)"
  unfolding f32_1_2_def
  using f32_round_eq [where x = "12 / 10" and k = 149 and m = 10066330 and q = "1 / 8388608"]
  by (simp add: pow2_def)

lemma f32_round_1_2: "f32_round (5033165 / 4194304) = Finite (5033165 / 4194304)"
  using f32_round_eq [where x = "5033165 / 4194304" and k = 149 and m = 10066330
      and q = "1 / 8388608"]
  by (simp add: pow2_def)

lemma f32_round_3_6: "f32_round (15099495 / 4194304) = Finite (15099495 / 4194304)"
  using f32_round_eq [where x = "15099495 / 4194304" and k = 150 and m = 15099495
      and q = "1 / 4194304"]
  by (simp add: pow2_def)

lemma f32_round_inv_1_2: "f32_round (4194304 / 5033165) = Finite (13981013 / 16777216)"
  using f32_round_eq [where x = "4194304 / 5033165" and k = 148 and m = 13981013
      and q = "1 / 16777216"]
  by (simp add: pow2_def)

lemma f32_round_0_83: "f32_round (13981013 / 16777216) = Finite (13981013 / 16777216)"
  using f32_round_eq [where x = "13981013 / 16777216" and k = 148 and m = 13981013
      and q = "1 / 16777216"]
  by (simp add: pow2_def)

section \<open>The interaction state machine\<close>

lemma f32_1_0_eq: "f32_1_0 = Finite 1"
  by (simp add: f32_1_0_def f32_round_1)


text \<open>
  C9. The key \<^verbatim>\<open>f\<close> twice leaves the state that the key \<^verbatim>\<open>f\<close> once leaves: the
  zoom 1.0, the pan (0, 0), fit-to-window set, every other field as it was.
\<close>

theorem fit_key_idempotent:
  "handle_events [SDL_KEYDOWN SDLK_f, SDL_KEYDOWN SDLK_f] app = handle_events [SDL_KEYDOWN SDLK_f] app \<and>
   handle_events [SDL_KEYDOWN SDLK_f] app =
     app\<lparr>zoom := Finite 1, pan_x := 0, pan_y := 0, fit_to_window := 1\<rparr>"
  by (simp add: f32_1_0_eq)

section \<open>The viewport\<close>

lemma zoom_in_3x3:
  "handle_event (SDL_KEYDOWN SDLK_PLUS) viewer_3x3 =
     viewer_3x3\<lparr>zoom := Finite (5033165 / 4194304), fit_to_window := 0\<rparr>"
  by (simp add: viewer_3x3_def f32_1_0_def f32_round_1 f32_1_2_eq f32_mul_def f32_round_1_2)

lemma zoom_out_1x1:
  "handle_event (SDL_KEYDOWN SDLK_MINUS) viewer_1x1 =
     viewer_1x1\<lparr>zoom := Finite (13981013 / 16777216), fit_to_window := 0\<rparr>"
  by (simp add: viewer_1x1_def viewer_3x3_def f32_1_0_def f32_round_1 f32_1_2_eq f32_div_def
      f32_round_inv_1_2)

lemma product_3x3:
  "f32_mul (f32_of_int 3) (Finite (5033165 / 4194304)) = Finite (15099495 / 4194304)"
  by (simp add: f32_of_int_def f32_round_3 f32_mul_def f32_round_3_6)

lemma product_1x1:
  "f32_mul (f32_of_int 1) (Finite (13981013 / 16777216)) = Finite (13981013 / 16777216)"
  by (simp add: f32_of_int_def f32_round_1 f32_mul_def f32_round_0_83)

lemma floor_3_6: "\<lfloor>15099495 / 4194304 :: rat\<rfloor> = 3"
  by (simp add: floor_eq_iff)

lemma floor_0_83: "\<lfloor>13981013 / 16777216 :: rat\<rfloor> = 0"
  by (simp add: floor_eq_iff)

lemma to_int_3_6: "f32_to_int (Finite (15099495 / 4194304)) = Some 3"
  by (simp add: f32_to_int_def floor_3_6 INT_MIN_def INT_MAX_def)

lemma to_int_0_83: "f32_to_int (Finite (13981013 / 16777216)) = Some 0"
  by (simp add: f32_to_int_def floor_0_83 INT_MIN_def INT_MAX_def)

lemma render_3x3:
  "render_image_free (handle_event (SDL_KEYDOWN SDLK_PLUS) viewer_3x3) =
     Rectangle \<lparr>rect_x = 398, rect_y = 298, rect_w = 3, rect_h = 3\<rparr>"
  by (simp only: zoom_in_3x3)
    (simp add: render_image_free_def viewer_3x3_def product_3x3 to_int_3_6
      INT_MIN_def INT_MAX_def centred_def c_int_def signed_divide_int_def)

lemma render_1x1:
  "render_image_free (handle_event (SDL_KEYDOWN SDLK_MINUS) viewer_1x1) = No_rectangle"
  by (simp only: zoom_out_1x1)
    (simp add: render_image_free_def viewer_1x1_def viewer_3x3_def product_1x1 to_int_0_83)

lemma f32_to_int_Some:
  assumes "f32_to_int v = Some t"
  shows "\<exists>x. v = Finite x \<and> t = (if x \<ge> 0 then \<lfloor>x\<rfloor> else \<lceil>x\<rceil>)"
  using assms by (cases v) (auto simp: f32_to_int_def Let_def split: if_splits)

lemma truncated_nonpositive:
  "(if x \<ge> 0 then \<lfloor>x\<rfloor> else \<lceil>x\<rceil>) \<le> 0 \<longleftrightarrow> x < (1 :: rat)"
proof (cases "x \<ge> 0")
  case True
  have "\<lfloor>x\<rfloor> \<le> 0 \<longleftrightarrow> \<lfloor>x\<rfloor> < 1" by arith
  also have "\<dots> \<longleftrightarrow> x < 1" by (simp add: floor_less_iff)
  finally show ?thesis using True by simp
next
  case False
  then have "\<lceil>x\<rceil> \<le> 0" "x < 1"
    by (simp_all add: ceiling_le_iff)
  with False show ?thesis by simp
qed

lemma truncated_large:
  "65536 < (if x \<ge> 0 then \<lfloor>x\<rfloor> else \<lceil>x\<rceil>) \<longleftrightarrow> 65537 \<le> (x :: rat)"
proof (cases "x \<ge> 0")
  case True
  have "65536 < \<lfloor>x\<rfloor> \<longleftrightarrow> 65537 \<le> \<lfloor>x\<rfloor>" by arith
  also have "\<dots> \<longleftrightarrow> 65537 \<le> x" by (simp add: le_floor_iff)
  finally show ?thesis using True by simp
next
  case False
  then have "\<lceil>x\<rceil> \<le> 0" "\<not> 65537 \<le> x"
    by (simp_all add: ceiling_le_iff)
  with False show ?thesis by simp
qed

text \<open>
  C1, as the code has it. In free zoom and pan, when the computation is defined (the
  casts to \<^verbatim>\<open>int\<close> and the \<^verbatim>\<open>int\<close> arithmetic stay in range), the products
  \<^verbatim>\<open>image_width * zoom\<close> and \<^verbatim>\<open>image_height * zoom\<close> are finite; no rectangle is
  rendered exactly when one of them is below 1 or at least 65537; and otherwise the
  rectangle's width and height are the products with the fractional part discarded.
\<close>

theorem render_image_free_size:
  assumes defined: "render_image_free app \<noteq> Undefined"
  shows "\<exists>pw ph.
     f32_mul (f32_of_int (image_width app)) (zoom app) = Finite pw \<and>
     f32_mul (f32_of_int (image_height app)) (zoom app) = Finite ph \<and>
     (render_image_free app = No_rectangle \<longleftrightarrow>
        pw < 1 \<or> ph < 1 \<or> 65537 \<le> pw \<or> 65537 \<le> ph) \<and>
     (\<forall>r. render_image_free app = Rectangle r \<longrightarrow> rect_w r = \<lfloor>pw\<rfloor> \<and> rect_h r = \<lfloor>ph\<rfloor>)"
proof -
  from defined obtain w where w: "f32_to_int (f32_mul (f32_of_int (image_width app)) (zoom app)) = Some w"
    by (auto simp: render_image_free_def split: option.splits)
  from defined w obtain h where h: "f32_to_int (f32_mul (f32_of_int (image_height app)) (zoom app)) = Some h"
    by (auto simp: render_image_free_def split: option.splits)
  from f32_to_int_Some [OF w] obtain pw where
    pw: "f32_mul (f32_of_int (image_width app)) (zoom app) = Finite pw"
    and wt: "w = (if pw \<ge> 0 then \<lfloor>pw\<rfloor> else \<lceil>pw\<rceil>)"
    by blast
  from f32_to_int_Some [OF h] obtain ph where
    ph: "f32_mul (f32_of_int (image_height app)) (zoom app) = Finite ph"
    and ht: "h = (if ph \<ge> 0 then \<lfloor>ph\<rfloor> else \<lceil>ph\<rceil>)"
    by blast
  have small: "w \<le> 0 \<longleftrightarrow> pw < 1" "h \<le> 0 \<longleftrightarrow> ph < 1"
    unfolding wt ht by (rule truncated_nonpositive)+
  have large: "65536 < w \<longleftrightarrow> 65537 \<le> pw" "65536 < h \<longleftrightarrow> 65537 \<le> ph"
    unfolding wt ht by (rule truncated_large)+
  have none: "render_image_free app = No_rectangle \<longleftrightarrow>
        pw < 1 \<or> ph < 1 \<or> 65537 \<le> pw \<or> 65537 \<le> ph"
    using defined w h small large
    by (auto simp: render_image_free_def split: option.splits)
  have rect: "rect_w r = \<lfloor>pw\<rfloor> \<and> rect_h r = \<lfloor>ph\<rfloor>" if "render_image_free app = Rectangle r" for r
  proof -
    from that none have "\<not> pw < 1" "\<not> ph < 1"
      by auto
    then have "w = \<lfloor>pw\<rfloor>" "h = \<lfloor>ph\<rfloor>"
      unfolding wt ht by simp_all
    with that w h show ?thesis
      by (auto simp: render_image_free_def split: option.splits if_splits)
  qed
  from pw ph none rect show ?thesis
    by blast
qed

theorem render_image_free_size_witness:
  "render_image_free (handle_event (SDL_KEYDOWN SDLK_PLUS) viewer_3x3) =
     Rectangle \<lparr>rect_x = 398, rect_y = 298, rect_w = 3, rect_h = 3\<rparr> \<and>
   f32_mul (f32_of_int (image_width (handle_event (SDL_KEYDOWN SDLK_PLUS) viewer_3x3)))
     (zoom (handle_event (SDL_KEYDOWN SDLK_PLUS) viewer_3x3)) = Finite (15099495 / 4194304) \<and>
   \<lfloor>15099495 / 4194304 :: rat\<rfloor> = 3"
proof -
  have d: "render_image_free (handle_event (SDL_KEYDOWN SDLK_PLUS) viewer_3x3) \<noteq> Undefined"
    by (simp only: render_3x3) simp
  have p: "f32_mul (f32_of_int (image_width (handle_event (SDL_KEYDOWN SDLK_PLUS) viewer_3x3)))
     (zoom (handle_event (SDL_KEYDOWN SDLK_PLUS) viewer_3x3)) = Finite (15099495 / 4194304)"
    by (simp only: zoom_in_3x3) (simp add: viewer_3x3_def product_3x3)
  from render_image_free_size [OF d] render_3x3 p floor_3_6 show ?thesis
    by simp
qed

text \<open>
  C1, as the claim states it, fails twice. After one zoom-in on a 3 by 3 image the
  product is 3.6000001..., which rounds to 4, and the rectangle is 3 wide. After one
  zoom-out on a 1 by 1 image the product is 0.8333333..., which is above 0 and not above
  65536, and no rectangle is rendered.
\<close>

theorem render_image_free_round_counterexample:
  "f32_mul (f32_of_int (image_width (handle_event (SDL_KEYDOWN SDLK_PLUS) viewer_3x3)))
     (zoom (handle_event (SDL_KEYDOWN SDLK_PLUS) viewer_3x3)) = Finite (15099495 / 4194304) \<and>
   round (15099495 / 4194304 :: rat) = 4 \<and>
   render_image_free (handle_event (SDL_KEYDOWN SDLK_PLUS) viewer_3x3) =
     Rectangle \<lparr>rect_x = 398, rect_y = 298, rect_w = 3, rect_h = 3\<rparr> \<and>
   f32_mul (f32_of_int (image_width (handle_event (SDL_KEYDOWN SDLK_MINUS) viewer_1x1)))
     (zoom (handle_event (SDL_KEYDOWN SDLK_MINUS) viewer_1x1)) = Finite (13981013 / 16777216) \<and>
   (0 :: rat) < 13981013 / 16777216 \<and> (13981013 / 16777216 :: rat) \<le> 65536 \<and>
   render_image_free (handle_event (SDL_KEYDOWN SDLK_MINUS) viewer_1x1) = No_rectangle"
proof -
  have p3: "f32_mul (f32_of_int (image_width (handle_event (SDL_KEYDOWN SDLK_PLUS) viewer_3x3)))
     (zoom (handle_event (SDL_KEYDOWN SDLK_PLUS) viewer_3x3)) = Finite (15099495 / 4194304)"
    by (simp only: zoom_in_3x3) (simp add: viewer_3x3_def product_3x3)
  have p1: "f32_mul (f32_of_int (image_width (handle_event (SDL_KEYDOWN SDLK_MINUS) viewer_1x1)))
     (zoom (handle_event (SDL_KEYDOWN SDLK_MINUS) viewer_1x1)) = Finite (13981013 / 16777216)"
    by (simp only: zoom_out_1x1) (simp add: viewer_1x1_def viewer_3x3_def product_1x1)
  have r: "round (15099495 / 4194304 :: rat) = 4"
    by (simp add: round_def floor_eq_iff)
  from p3 p1 r render_3x3 render_1x1 show ?thesis
    by simp
qed

end
